theory Spec2Isabelle
  imports Complex_Main "HOL-Library.Word"
begin

section \<open>Formats, layouts and barriers\<close>

text \<open>
  The enumerations of \<^verbatim>\<open>impeller/core/formats.h\<close> and of the Vulkan headers are declared
  outside the files verified here. Their values are taken from the specification's data
  model: load action {load, clear, don't-care}, store action {store, don't-care}, storage
  class {transient, host-visible, device-local}. Only the constructors that
  \<^verbatim>\<open>render_pass_vk.cc\<close> names, plus a few neighbours, are listed for the formats and layouts.
\<close>

datatype ImageLayout =
    eUndefined
  | eGeneral
  | eColorAttachmentOptimal
  | eDepthStencilAttachmentOptimal
  | eShaderReadOnlyOptimal
  | eTransferSrcOptimal
  | eTransferDstOptimal
  | ePresentSrcKHR

datatype LoadAction = Load_kDontCare | Load_kLoad | Load_kClear

datatype StoreAction = Store_kDontCare | Store_kStore

datatype StorageMode = kHostVisible | kDevicePrivate | kDeviceTransient

datatype PixelFormat =
    kUnknown
  | kR8G8B8A8UNormInt
  | kB8G8R8A8UNormInt
  | kS8UInt
  | kD32FloatS8UInt

datatype SampleCount = kCount1 | kCount4

datatype AccessFlagBits = Access_eShaderRead | Access_eColorAttachmentWrite | Access_eTransferWrite

datatype PipelineStageFlagBits = Stage_eFragmentShader | Stage_eColorAttachmentOutput | Stage_eTransfer

text \<open>
  \<^verbatim>\<open>BarrierVK\<close>: the command buffer field is left out, every barrier of one encode goes to the
  one command buffer of the encoder. Flag masks are sets of flag bits, \<^verbatim>\<open>|\<close> is union.
\<close>

record BarrierVK =
  new_layout :: ImageLayout
  src_access :: "AccessFlagBits set"
  src_stage :: "PipelineStageFlagBits set"
  dst_access :: "AccessFlagBits set"
  dst_stage :: "PipelineStageFlagBits set"

section \<open>Textures, attachments\<close>

record TextureDescriptor =
  storage_mode :: StorageMode
  format :: PixelFormat
  sample_count :: SampleCount

text \<open>
  A texture is a shared image resource. \<open>tex_id\<close> is the identity of the resource: two
  attachments holding the same shared pointer hold textures with the same \<open>tex_id\<close>, and the
  layout is tracked per identity. The image view of a texture is identified with the
  resource it views.
\<close>

record Texture =
  tex_id :: nat
  GetTextureDescriptor :: TextureDescriptor

definition GetImageView :: "Texture \<Rightarrow> nat" where
  "GetImageView t = tex_id t"

text \<open>\<^verbatim>\<open>std::shared_ptr<Texture>\<close> may be null: \<open>None\<close>.\<close>

record Attachment =
  texture :: "Texture option"
  resolve_texture :: "Texture option"
  load_action :: LoadAction
  store_action :: StoreAction

text \<open>The pointer to member \<^verbatim>\<open>const std::shared_ptr<Texture> Attachment::*texture_ptr\<close>.\<close>

datatype TexturePtr = Ptr_texture | Ptr_resolve_texture

fun member_ptr :: "Attachment \<Rightarrow> TexturePtr \<Rightarrow> Texture option" where
  "member_ptr attachment Ptr_texture = texture attachment"
| "member_ptr attachment Ptr_resolve_texture = resolve_texture attachment"

text \<open>
  \<^verbatim>\<open>vk::AttachmentDescription\<close>, read through the engine's own enumerations. A value-initialised
  description (\<^verbatim>\<open>return {}\<close>) has the zero of every Vulkan field: undefined format, one
  sample, load, store, undefined layouts.
\<close>

record AttachmentDescription =
  vk_format :: PixelFormat
  vk_samples :: SampleCount
  loadOp :: LoadAction
  storeOp :: StoreAction
  initialLayout :: ImageLayout
  finalLayout :: ImageLayout

definition empty_AttachmentDescription :: AttachmentDescription where
  "empty_AttachmentDescription =
     \<lparr>vk_format = kUnknown, vk_samples = kCount1, loadOp = Load_kLoad, storeOp = Store_kStore,
      initialLayout = eUndefined, finalLayout = eUndefined\<rparr>"

record AttachmentReference =
  ref_attachment :: "32 word"
  ref_layout :: ImageLayout

text \<open>\<^verbatim>\<open>kUnusedAttachmentReference = {VK_ATTACHMENT_UNUSED, vk::ImageLayout::eUndefined}\<close>,
  with \<^verbatim>\<open>VK_ATTACHMENT_UNUSED = ~0U\<close>.\<close>

definition kUnusedAttachmentReference :: AttachmentReference where
  "kUnusedAttachmentReference = \<lparr>ref_attachment = - 1, ref_layout = eUndefined\<rparr>"

section \<open>The recorded commands and the tracked layouts\<close>

record RenderPassCreateInfo =
  rp_attachments :: "AttachmentDescription list"
  rp_color_refs :: "AttachmentReference list"
  rp_resolve_refs :: "AttachmentReference list"
  rp_depth_stencil_ref :: AttachmentReference

record FramebufferCreateInfo =
  fb_renderPass :: RenderPassCreateInfo
  fb_width :: "32 word"
  fb_height :: "32 word"
  fb_layers :: "32 word"
  fb_attachments :: "nat list"

datatype IndexType = Index_kUnknown | Index_k16bit | Index_k32bit | Index_kNone

record vk_Viewport =
  vp_x :: rat
  vp_y :: rat
  vp_width :: rat
  vp_height :: rat
  vp_minDepth :: rat
  vp_maxDepth :: rat

record vk_Rect2D =
  offset_x :: "32 word"
  offset_y :: "32 word"
  extent_width :: "32 word"
  extent_height :: "32 word"

text \<open>
  What one encode records, in order: the calls the encoder makes on the command buffer, on
  the pass bindings cache (which forwards to the command buffer what is not already bound)
  and the barriers the layout tracker records.
\<close>

datatype vk_cmd =
    PipelineBarrier nat BarrierVK
  | PushDebugGroup string
  | PopDebugGroup
  | BeginRenderPass RenderPassCreateInfo FramebufferCreateInfo "32 word" "32 word"
  | EndRenderPass
  | BindDescriptorSets nat nat
  | Cache_BindPipeline nat
  | Cache_SetViewport vk_Viewport
  | Cache_SetScissor vk_Rect2D
  | Cache_SetStencilReference "32 word"
  | BindVertexBuffers nat nat
  | BindIndexBuffer nat nat IndexType
  | DrawIndexed "32 word" "32 word" "32 word"
  | Draw "32 word" "32 word" "32 word"

record vk_state =
  layouts :: "nat \<rightharpoonup> ImageLayout"
  recorded :: "vk_cmd list"

text \<open>
  The layout tracker of \<^verbatim>\<open>TextureVK\<close> (\<^verbatim>\<open>texture_vk.cc\<close>) is missing from the sources. In
  the specification it keeps one layout per image resource, for the lifetime of the
  resource: a resource that is gone has no entry in \<open>layouts\<close>.
\<close>

text \<open>
  Modelled from the spec: \<^verbatim>\<open>TextureVK::GetLayout\<close> is missing from the sources. The tracker
  exposes the current layout of a resource; for a resource that is gone nothing is
  recorded, which is the undefined sentinel.
\<close>

definition GetLayout :: "vk_state \<Rightarrow> Texture \<Rightarrow> ImageLayout" where
  "GetLayout s t = (case layouts s (tex_id t) of None \<Rightarrow> eUndefined | Some l \<Rightarrow> l)"

text \<open>
  Modelled from the spec: \<^verbatim>\<open>TextureVK::SetLayoutWithoutEncoding\<close> is missing from the
  sources. It updates the tracked layout and records nothing (the subpass performs the
  transition); a resource that is gone has no layout to update.
\<close>

definition SetLayoutWithoutEncoding :: "vk_state \<Rightarrow> Texture \<Rightarrow> ImageLayout \<Rightarrow> vk_state" where
  "SetLayoutWithoutEncoding s t l =
     (case layouts s (tex_id t) of
        None \<Rightarrow> s
      | Some _ \<Rightarrow> s\<lparr>layouts := (layouts s)(tex_id t \<mapsto> l)\<rparr>)"

text \<open>
  Modelled from the spec: \<^verbatim>\<open>TextureVK::SetLayout\<close> is missing from the sources. The
  transition of the specification records a barrier command on the command recorder and
  updates the tracked state; it cannot be satisfied, and returns false, when the resource
  is gone. Every satisfied transition records its barrier, whatever the layout tracked
  before.
\<close>

definition SetLayout :: "vk_state \<Rightarrow> Texture \<Rightarrow> BarrierVK \<Rightarrow> bool \<times> vk_state" where
  "SetLayout s t barrier =
     (case layouts s (tex_id t) of
        None \<Rightarrow> (False, s)
      | Some _ \<Rightarrow>
          (True, s\<lparr>layouts := (layouts s)(tex_id t \<mapsto> new_layout barrier),
                   recorded := recorded s @ [PipelineBarrier (tex_id t) barrier]\<rparr>))"

section \<open>Deriving attachment descriptions\<close>

text \<open>
  Modelled from the spec: the five-argument \<^verbatim>\<open>CreateAttachmentDescription\<close> of
  \<^verbatim>\<open>formats_vk.h\<close> is missing from the sources. The specification derives the description
  from the format, the sample count, the clamped load and store actions and the current
  layout as the initial layout. The final layout it assigns is not specified: it is the
  parameter \<open>final\<close>.
\<close>

definition CreateAttachmentDescription5 ::
  "ImageLayout \<Rightarrow> PixelFormat \<Rightarrow> SampleCount \<Rightarrow> LoadAction \<Rightarrow> StoreAction \<Rightarrow> ImageLayout
   \<Rightarrow> AttachmentDescription" where
  "CreateAttachmentDescription5 final fmt samples la sa current_layout =
     \<lparr>vk_format = fmt, vk_samples = samples, loadOp = la, storeOp = sa,
      initialLayout = current_layout, finalLayout = final\<rparr>"

definition CreateAttachmentDescription ::
  "ImageLayout \<Rightarrow> vk_state \<Rightarrow> Attachment \<Rightarrow> TexturePtr \<Rightarrow> AttachmentDescription" where
  "CreateAttachmentDescription final s attachment texture_ptr =
     (case member_ptr attachment texture_ptr of
        None \<Rightarrow> empty_AttachmentDescription
      | Some tex \<Rightarrow>
          let desc = GetTextureDescriptor tex;
              current_layout = GetLayout s tex;
              load_action0 = load_action attachment;
              store_action0 = store_action attachment;
              load_action1 =
                (if current_layout = eUndefined then Load_kClear else load_action0);
              store_action1 =
                (if storage_mode desc = kDeviceTransient then Store_kDontCare
                 else if texture_ptr = Ptr_resolve_texture then Store_kStore
                 else store_action0);
              current_layout1 =
                (if current_layout \<noteq> ePresentSrcKHR \<and> current_layout \<noteq> eUndefined
                 then eGeneral else current_layout)
          in CreateAttachmentDescription5 final (format desc) (sample_count desc)
               load_action1 store_action1 current_layout1)"

definition attachment_barrier :: BarrierVK where
  "attachment_barrier =
     \<lparr>new_layout = eGeneral,
      src_access = {Access_eShaderRead},
      src_stage = {Stage_eFragmentShader},
      dst_access = {Access_eColorAttachmentWrite} \<union> {Access_eTransferWrite},
      dst_stage = {Stage_eColorAttachmentOutput} \<union> {Stage_eTransfer}\<rparr>"

definition SetTextureLayout ::
  "vk_state \<Rightarrow> Attachment \<Rightarrow> AttachmentDescription \<Rightarrow> TexturePtr \<Rightarrow> vk_state" where
  "SetTextureLayout s attachment attachment_desc texture_ptr =
     (case member_ptr attachment texture_ptr of
        None \<Rightarrow> s
      | Some tex \<Rightarrow>
          let s1 = (if initialLayout attachment_desc = eGeneral
                    then snd (SetLayout s tex attachment_barrier) else s)
          in SetLayoutWithoutEncoding s1 tex (finalLayout attachment_desc))"

section \<open>The render target\<close>

text \<open>\<^verbatim>\<open>ISize\<close> is \<^verbatim>\<open>TSize<int64_t>\<close>.\<close>

record ISize =
  size_width :: "64 word"
  size_height :: "64 word"

text \<open>
  \<^verbatim>\<open>RenderTarget\<close> is declared in \<^verbatim>\<open>render_target.h\<close>, outside the sources. Its colour
  attachments are a \<^verbatim>\<open>std::map<size_t, ColorAttachment>\<close>: the list of its entries in
  iteration order, which for a \<^verbatim>\<open>std::map\<close> is strictly increasing in the key
  (\<open>map_ordered\<close>). Bind points and vector sizes are \<^verbatim>\<open>size_t\<close>; they are natural numbers
  here, a vector of \<open>2 ^ 64\<close> references cannot be allocated. Clear values are floating
  point and are read by no function modelled here, so colour, depth and stencil
  attachments are all plain attachments.
\<close>

record RenderTarget =
  rt_colors :: "(nat \<times> Attachment) list"
  rt_depth :: "Attachment option"
  rt_stencil :: "Attachment option"
  rt_size :: ISize

definition map_ordered :: "(nat \<times> 'a) list \<Rightarrow> bool" where
  "map_ordered kvs = sorted_wrt (<) (map fst kvs)"

definition GetColorAttachments :: "RenderTarget \<Rightarrow> (nat \<times> Attachment) list" where
  "GetColorAttachments rt = rt_colors rt"

definition GetDepthAttachment :: "RenderTarget \<Rightarrow> Attachment option" where
  "GetDepthAttachment rt = rt_depth rt"

definition GetStencilAttachment :: "RenderTarget \<Rightarrow> Attachment option" where
  "GetStencilAttachment rt = rt_stencil rt"

definition GetRenderTargetSize :: "RenderTarget \<Rightarrow> ISize" where
  "GetRenderTargetSize rt = rt_size rt"

text \<open>
  Modelled from the spec: \<^verbatim>\<open>RenderTarget::GetMaxColorAttacmentBindIndex\<close>
  (\<^verbatim>\<open>render_target.cc\<close>) is missing from the sources. The specification's render target
  tracks the maximum bind index of its colour slots, slot indices being non-negative: the
  greatest key, 0 for a target without colour attachments.
\<close>

definition GetMaxColorAttacmentBindIndex :: "RenderTarget \<Rightarrow> nat" where
  "GetMaxColorAttacmentBindIndex rt = fold (\<lambda>(bind_point, _) m. max bind_point m) (rt_colors rt) 0"

section \<open>Building the render pass\<close>

text \<open>
  The loop over the colour attachments of \<^verbatim>\<open>RenderPassVK::CreateVKRenderPass\<close>. The loop
  state is the attachment descriptions, the colour references, the resolve references and
  the tracker state. \<^verbatim>\<open>static_cast<uint32_t>(attachments.size())\<close> is \<open>of_nat\<close> into a 32-bit
  word. The vectors of references are resized to the maximum bind index plus one, so every
  write \<^verbatim>\<open>color_refs[bind_point]\<close> is in range (lemma \<open>bind_point_in_range\<close>).
\<close>

fun color_attachments_loop ::
  "ImageLayout \<Rightarrow> (nat \<times> Attachment) list
   \<Rightarrow> AttachmentDescription list \<times> AttachmentReference list \<times> AttachmentReference list \<times> vk_state
   \<Rightarrow> AttachmentDescription list \<times> AttachmentReference list \<times> AttachmentReference list \<times> vk_state"
  where
  "color_attachments_loop final [] acc = acc"
| "color_attachments_loop final ((bind_point, color) # rest) (attachments, color_refs, resolve_refs, s) =
     (let color_refs1 = color_refs[bind_point :=
            \<lparr>ref_attachment = of_nat (length attachments), ref_layout = eColorAttachmentOptimal\<rparr>];
          attachments1 = attachments @ [CreateAttachmentDescription final s color Ptr_texture];
          s1 = SetTextureLayout s color (last attachments1) Ptr_texture
      in if resolve_texture color \<noteq> None then
           let resolve_refs1 = resolve_refs[bind_point :=
                 \<lparr>ref_attachment = of_nat (length attachments1), ref_layout = eGeneral\<rparr>];
               attachments2 =
                 attachments1 @ [CreateAttachmentDescription final s1 color Ptr_resolve_texture];
               s2 = SetTextureLayout s1 color (last attachments2) Ptr_resolve_texture
           in color_attachments_loop final rest (attachments2, color_refs1, resolve_refs1, s2)
         else color_attachments_loop final rest (attachments1, color_refs1, resolve_refs, s1))"

text \<open>
  \<^verbatim>\<open>CreateVKRenderPass\<close> up to the device call: the \<^verbatim>\<open>render_pass_desc\<close> it builds
  (attachment descriptions, colour and resolve references, depth-stencil reference) and the
  tracker state after the layout updates. It is built the same way whether or not the
  device then accepts it.
\<close>

definition CreateVKRenderPass_desc :: "ImageLayout \<Rightarrow> RenderTarget \<Rightarrow> vk_state \<Rightarrow> RenderPassCreateInfo \<times> vk_state" where
  "CreateVKRenderPass_desc final render_target s =
     (let n = GetMaxColorAttacmentBindIndex render_target + 1;
          (attachments1, color_refs, resolve_refs, s1) =
             color_attachments_loop final (GetColorAttachments render_target)
               ([], replicate n kUnusedAttachmentReference, replicate n kUnusedAttachmentReference, s);
          (depth_stencil_ref2, attachments2, s2) =
             (case GetDepthAttachment render_target of
                None \<Rightarrow> (kUnusedAttachmentReference, attachments1, s1)
              | Some depth \<Rightarrow>
                  let atts = attachments1 @ [CreateAttachmentDescription final s1 depth Ptr_texture]
                  in (\<lparr>ref_attachment = of_nat (length attachments1),
                       ref_layout = eDepthStencilAttachmentOptimal\<rparr>,
                      atts, SetTextureLayout s1 depth (last atts) Ptr_texture));
          (depth_stencil_ref3, attachments3, s3) =
             (case GetStencilAttachment render_target of
                None \<Rightarrow> (depth_stencil_ref2, attachments2, s2)
              | Some stencil \<Rightarrow>
                  let atts = attachments2 @ [CreateAttachmentDescription final s2 stencil Ptr_texture]
                  in (\<lparr>ref_attachment = of_nat (length attachments2),
                       ref_layout = eDepthStencilAttachmentOptimal\<rparr>,
                      atts, SetTextureLayout s2 stencil (last atts) Ptr_texture))
      in (\<lparr>rp_attachments = attachments3, rp_color_refs = color_refs,
           rp_resolve_refs = resolve_refs, rp_depth_stencil_ref = depth_stencil_ref3\<rparr>, s3))"

section \<open>Building the framebuffer\<close>

text \<open>
  The loop of \<^verbatim>\<open>RenderPassVK::CreateVKFramebuffer\<close> over the colour attachments.
  \<^verbatim>\<open>*color.texture\<close> dereferences the shared pointer without a check: on a null texture
  the result is \<open>None\<close>. The resolve texture is tested before it is dereferenced.
\<close>

fun framebuffer_color_loop :: "(nat \<times> Attachment) list \<Rightarrow> nat list \<Rightarrow> nat list option" where
  "framebuffer_color_loop [] attachments = Some attachments"
| "framebuffer_color_loop ((_, color) # rest) attachments =
     (case texture color of
        None \<Rightarrow> None
      | Some tex \<Rightarrow>
          let attachments1 = attachments @ [GetImageView tex]
          in (case resolve_texture color of
                None \<Rightarrow> framebuffer_color_loop rest attachments1
              | Some resolve \<Rightarrow> framebuffer_color_loop rest (attachments1 @ [GetImageView resolve])))"

text \<open>
  The \<^verbatim>\<open>attachments\<close> vector \<^verbatim>\<open>CreateVKFramebuffer\<close> builds before the device call: the
  views of the colour attachments, then of the depth texture, then of the stencil texture,
  each dereferenced without a check.
\<close>

definition CreateVKFramebuffer_attachments :: "RenderTarget \<Rightarrow> nat list option" where
  "CreateVKFramebuffer_attachments render_target =
     (case framebuffer_color_loop (GetColorAttachments render_target) [] of
        None \<Rightarrow> None
      | Some attachments1 \<Rightarrow>
          (case (case GetDepthAttachment render_target of
                   None \<Rightarrow> Some attachments1
                 | Some depth \<Rightarrow>
                     (case texture depth of
                        None \<Rightarrow> None
                      | Some tex \<Rightarrow> Some (attachments1 @ [GetImageView tex]))) of
             None \<Rightarrow> None
           | Some attachments2 \<Rightarrow>
               (case GetStencilAttachment render_target of
                  None \<Rightarrow> Some attachments2
                | Some stencil \<Rightarrow>
                    (case texture stencil of
                       None \<Rightarrow> None
                     | Some tex \<Rightarrow> Some (attachments2 @ [GetImageView tex])))))"

section \<open>The backend\<close>

text \<open>
  What the encoder receives from collaborators that are outside the sources, as
  parameters: the final layout the description helper assigns, whether the device creates
  the render pass and the framebuffer, the device buffer a buffer resolves to (null:
  \<open>None\<close>), whether the encoder accepts a resource for tracking, the descriptor sets the pool
  can still hand out, and whether the build defines \<^verbatim>\<open>IMPELLER_DEBUG\<close>.
\<close>

datatype tracked =
    Tracked_Buffer nat
  | Tracked_Framebuffer FramebufferCreateInfo
  | Tracked_RenderPass RenderPassCreateInfo

record Backend =
  final_layout :: ImageLayout
  createRenderPassUnique :: "RenderPassCreateInfo \<Rightarrow> bool"
  createFramebufferUnique :: "FramebufferCreateInfo \<Rightarrow> bool"
  GetDeviceBuffer :: "nat \<Rightarrow> nat option"
  Track :: "tracked \<Rightarrow> bool"
  descriptor_pool :: "nat list"
  IMPELLER_DEBUG :: bool

definition CreateVKRenderPass ::
  "Backend \<Rightarrow> RenderTarget \<Rightarrow> vk_state \<Rightarrow> RenderPassCreateInfo option \<times> vk_state" where
  "CreateVKRenderPass env render_target s =
     (let (desc, s') = CreateVKRenderPass_desc (final_layout env) render_target s
      in if createRenderPassUnique env desc then (Some desc, s') else (None, s'))"

text \<open>
  \<^verbatim>\<open>CreateVKFramebuffer\<close>: the outer \<open>None\<close> is the dereference of a null texture, the inner
  one the device refusing the framebuffer. Width and height are the 64-bit target size
  converted to \<^verbatim>\<open>uint32_t\<close>.
\<close>

definition CreateVKFramebuffer ::
  "Backend \<Rightarrow> RenderTarget \<Rightarrow> RenderPassCreateInfo \<Rightarrow> FramebufferCreateInfo option option" where
  "CreateVKFramebuffer env render_target pass =
     (case CreateVKFramebuffer_attachments render_target of
        None \<Rightarrow> None
      | Some attachments \<Rightarrow>
          let tgt_size = GetRenderTargetSize render_target;
              fb_info = \<lparr>fb_renderPass = pass,
                         fb_width = ucast (size_width tgt_size),
                         fb_height = ucast (size_height tgt_size),
                         fb_layers = 1,
                         fb_attachments = attachments\<rparr>
          in Some (if createFramebufferUnique env fb_info then Some fb_info else None))"

section \<open>Commands\<close>

text \<open>
  \<^verbatim>\<open>Command\<close>, \<^verbatim>\<open>Bindings\<close>, \<^verbatim>\<open>VertexBuffer\<close> and \<^verbatim>\<open>BufferView\<close> are declared outside the
  sources; the fields are the ones \<^verbatim>\<open>render_pass_vk.cc\<close> reads. A buffer view converts to
  \<^verbatim>\<open>true\<close> when its buffer pointer is set. The sampled images of a binding set are a
  \<^verbatim>\<open>std::map\<close>, listed in iteration order; each holds its texture, which the encoder
  dereferences without a check. Scalars are carried as rationals: the encoder copies and
  negates them, nothing else.
\<close>

record BufferView =
  bv_buffer :: "nat option"
  bv_range_offset :: "64 word"

record VertexBuffer =
  vb_vertex_buffer :: BufferView
  vb_index_buffer :: BufferView
  vb_vertex_count :: "64 word"
  vb_index_type :: IndexType

record Bindings =
  sampled_images :: "(nat \<times> Texture) list"

record PipelineVK =
  GetPipelineLayout :: nat
  GetPipeline :: nat

record Rect =
  rect_x :: rat
  rect_y :: rat
  rect_width :: rat
  rect_height :: rat

record Viewport =
  vp_rect :: Rect

record IRect =
  irect_x :: "64 word"
  irect_y :: "64 word"
  irect_width :: "64 word"
  irect_height :: "64 word"

record Command =
  pipeline :: PipelineVK
  vertex_bindings :: Bindings
  fragment_bindings :: Bindings
  vertex_buffer :: VertexBuffer
  viewport :: "Viewport option"
  scissor :: "IRect option"
  stencil_reference :: "32 word"
  instance_count :: "64 word"
  base_vertex :: "64 word"
  label :: string

definition record_cmd :: "vk_state \<Rightarrow> vk_cmd \<Rightarrow> vk_state" where
  "record_cmd s c = s\<lparr>recorded := recorded s @ [c]\<rparr>"

section \<open>Transitions of the sampled images\<close>

definition binding_barrier :: BarrierVK where
  "binding_barrier =
     \<lparr>new_layout = eShaderReadOnlyOptimal,
      src_access = {Access_eColorAttachmentWrite} \<union> {Access_eTransferWrite},
      src_stage = {Stage_eColorAttachmentOutput} \<union> {Stage_eTransfer},
      dst_access = {Access_eShaderRead},
      dst_stage = {Stage_eFragmentShader}\<rparr>"

text \<open>The three overloads of \<^verbatim>\<open>UpdateBindingLayouts\<close>: bindings, command, command list.\<close>

fun UpdateBindingLayouts_images :: "vk_state \<Rightarrow> (nat \<times> Texture) list \<Rightarrow> bool \<times> vk_state" where
  "UpdateBindingLayouts_images s [] = (True, s)"
| "UpdateBindingLayouts_images s ((_, data) # rest) =
     (case SetLayout s data binding_barrier of
        (False, s') \<Rightarrow> (False, s')
      | (True, s') \<Rightarrow> UpdateBindingLayouts_images s' rest)"

definition UpdateBindingLayouts_bindings :: "vk_state \<Rightarrow> Bindings \<Rightarrow> bool \<times> vk_state" where
  "UpdateBindingLayouts_bindings s bindings = UpdateBindingLayouts_images s (sampled_images bindings)"

definition UpdateBindingLayouts_command :: "vk_state \<Rightarrow> Command \<Rightarrow> bool \<times> vk_state" where
  "UpdateBindingLayouts_command s command =
     (case UpdateBindingLayouts_bindings s (vertex_bindings command) of
        (False, s') \<Rightarrow> (False, s')
      | (True, s') \<Rightarrow> UpdateBindingLayouts_bindings s' (fragment_bindings command))"

fun UpdateBindingLayouts :: "vk_state \<Rightarrow> Command list \<Rightarrow> bool \<times> vk_state" where
  "UpdateBindingLayouts s [] = (True, s)"
| "UpdateBindingLayouts s (command # rest) =
     (case UpdateBindingLayouts_command s command of
        (False, s') \<Rightarrow> (False, s')
      | (True, s') \<Rightarrow> UpdateBindingLayouts s' rest)"

section \<open>Encoding one command\<close>

definition MakeSize :: "ISize \<Rightarrow> Rect" where
  "MakeSize sz = \<lparr>rect_x = 0, rect_y = 0,
                  rect_width = of_int (sint (size_width sz)),
                  rect_height = of_int (sint (size_height sz))\<rparr>"

definition IRect_MakeSize :: "ISize \<Rightarrow> IRect" where
  "IRect_MakeSize sz = \<lparr>irect_x = 0, irect_y = 0,
                        irect_width = size_width sz, irect_height = size_height sz\<rparr>"

definition SetViewportAndScissor :: "vk_state \<Rightarrow> Command \<Rightarrow> ISize \<Rightarrow> vk_state" where
  "SetViewportAndScissor s command tgt_size =
     (let vp = (case viewport command of
                  None \<Rightarrow> \<lparr>vp_rect = MakeSize tgt_size\<rparr>
                | Some v \<Rightarrow> v);
          vk_viewport = \<lparr>vp_x = 0, vp_y = rect_height (vp_rect vp),
                         vp_width = rect_width (vp_rect vp),
                         vp_height = - rect_height (vp_rect vp),
                         vp_minDepth = 0, vp_maxDepth = 1\<rparr>;
          s1 = record_cmd s (Cache_SetViewport vk_viewport);
          sc = (case scissor command of
                  None \<Rightarrow> IRect_MakeSize tgt_size
                | Some r \<Rightarrow> r);
          vk_scissor = \<lparr>offset_x = ucast (irect_x sc), offset_y = ucast (irect_y sc),
                        extent_width = ucast (irect_width sc),
                        extent_height = ucast (irect_height sc)\<rparr>
      in record_cmd s1 (Cache_SetScissor vk_scissor))"

text \<open>
  \<^verbatim>\<open>EncodeCommand\<close> after the debug marker: every early \<^verbatim>\<open>return false\<close> of the source is a
  branch. The counts and the base vertex are converted to the 32-bit parameters of the
  draw calls.
\<close>

definition EncodeCommand_body ::
  "Backend \<Rightarrow> vk_state \<Rightarrow> Command \<Rightarrow> ISize \<Rightarrow> nat \<Rightarrow> bool \<times> vk_state" where
  "EncodeCommand_body env s command tgt_size vk_desc_set =
     (let pipeline_vk = pipeline command;
          s1 = record_cmd s (BindDescriptorSets (GetPipelineLayout pipeline_vk) vk_desc_set);
          s2 = record_cmd s1 (Cache_BindPipeline (GetPipeline pipeline_vk));
          s3 = SetViewportAndScissor s2 command tgt_size;
          s4 = record_cmd s3 (Cache_SetStencilReference (stencil_reference command));
          vertex_buffer_view = vb_vertex_buffer (vertex_buffer command)
      in case bv_buffer vertex_buffer_view of
           None \<Rightarrow> (False, s4)
         | Some buffer \<Rightarrow>
             (case GetDeviceBuffer env buffer of
                None \<Rightarrow> (False, s4)
              | Some vertex_buffer_handle \<Rightarrow>
                  if \<not> Track env (Tracked_Buffer vertex_buffer_handle) then (False, s4)
                  else
                    let s5 = record_cmd s4
                          (BindVertexBuffers vertex_buffer_handle
                             (unat (bv_range_offset vertex_buffer_view)))
                    in if vb_index_type (vertex_buffer command) \<noteq> Index_kNone then
                         (let index_buffer_view = vb_index_buffer (vertex_buffer command)
                          in case bv_buffer index_buffer_view of
                               None \<Rightarrow> (False, s5)
                             | Some ibuffer \<Rightarrow>
                                 (case GetDeviceBuffer env ibuffer of
                                    None \<Rightarrow> (False, s5)
                                  | Some index_buffer_handle \<Rightarrow>
                                      if \<not> Track env (Tracked_Buffer index_buffer_handle)
                                      then (False, s5)
                                      else
                                        let s6 = record_cmd s5
                                              (BindIndexBuffer index_buffer_handle
                                                 (unat (bv_range_offset index_buffer_view))
                                                 (vb_index_type (vertex_buffer command)))
                                        in (True, record_cmd s6
                                              (DrawIndexed
                                                 (ucast (vb_vertex_count (vertex_buffer command)))
                                                 (ucast (instance_count command))
                                                 (ucast (base_vertex command))))))
                       else (True, record_cmd s5
                               (Draw (ucast (vb_vertex_count (vertex_buffer command)))
                                     (ucast (instance_count command))
                                     (ucast (base_vertex command))))))"

text \<open>
  \<^verbatim>\<open>EncodeCommand\<close>: under \<^verbatim>\<open>IMPELLER_DEBUG\<close> a labelled command is wrapped in a debug group,
  popped by the scoped closure on every return.
\<close>

definition EncodeCommand ::
  "Backend \<Rightarrow> vk_state \<Rightarrow> Command \<Rightarrow> ISize \<Rightarrow> nat \<Rightarrow> bool \<times> vk_state" where
  "EncodeCommand env s command tgt_size vk_desc_set =
     (let marker = (IMPELLER_DEBUG env \<and> label command \<noteq> []);
          s1 = (if marker then record_cmd s (PushDebugGroup (label command)) else s);
          (ok, s2) = EncodeCommand_body env s1 command tgt_size vk_desc_set
      in (ok, if marker then record_cmd s2 PopDebugGroup else s2))"

section \<open>Encoding the pass\<close>

text \<open>
  Modelled from the spec: \<^verbatim>\<open>AllocateAndBindDescriptorSets\<close> (\<^verbatim>\<open>binding_helpers_vk.cc\<close>)
  is missing from the sources. In the specification every command has its resource set,
  bound when the command is encoded, and the allocation of the sets can be exhausted, which
  fails the encode: one set per command, in command order, taken from what the pool can
  still hand out.
\<close>

definition AllocateAndBindDescriptorSets :: "Backend \<Rightarrow> Command list \<Rightarrow> nat list option" where
  "AllocateAndBindDescriptorSets env commands =
     (if length commands \<le> length (descriptor_pool env)
      then Some (take (length commands) (descriptor_pool env))
      else None)"

text \<open>
  The loop over the commands of \<^verbatim>\<open>OnEncodeCommands\<close>. \<^verbatim>\<open>desc_index\<close> is an
  \<^verbatim>\<open>unsigned int\<close>: a 32-bit word whose increment wraps. The descriptor sets are one per
  command, so \<^verbatim>\<open>desc_sets[desc_index]\<close> is read in range (lemma \<open>desc_index_in_range\<close>).
\<close>

fun encode_commands_loop ::
  "Backend \<Rightarrow> vk_state \<Rightarrow> Command list \<Rightarrow> ISize \<Rightarrow> nat list \<Rightarrow> 32 word \<Rightarrow> bool \<times> vk_state" where
  "encode_commands_loop env s [] tgt_size desc_sets desc_index = (True, s)"
| "encode_commands_loop env s (command # rest) tgt_size desc_sets desc_index =
     (case EncodeCommand env s command tgt_size (desc_sets ! unat desc_index) of
        (False, s') \<Rightarrow> (False, s')
      | (True, s') \<Rightarrow> encode_commands_loop env s' rest tgt_size desc_sets (desc_index + 1))"

text \<open>
  The render pass object: its target, its commands, its label, its validity flag, and the
  weak pointer to the command buffer (\<open>None\<close> when it has expired), which may or may not
  have an encoder.
\<close>

record CommandBufferVK =
  has_encoder :: bool

record RenderPassVK =
  render_target :: RenderTarget
  commands :: "Command list"
  debug_label :: string
  is_valid :: bool
  command_buffer :: "CommandBufferVK option"

text \<open>
  \<^verbatim>\<open>OnEncodeCommands\<close> from the binding layouts on. The result is \<open>None\<close> when the framebuffer
  dereferences a null texture. Tracking the textures of the attachments records nothing and
  its result is ignored; the clear values are floating point and are left out of
  \<open>BeginRenderPass\<close>. The scoped closure ends the render pass on every way out of the block.
\<close>

definition encode_pass :: "Backend \<Rightarrow> RenderPassVK \<Rightarrow> vk_state \<Rightarrow> (bool \<times> vk_state) option" where
  "encode_pass env pass s =
     (case UpdateBindingLayouts s (commands pass) of
        (False, s1) \<Rightarrow> Some (False, s1)
      | (True, s1) \<Rightarrow>
          let tgt_size = GetRenderTargetSize (render_target pass)
          in (case CreateVKRenderPass env (render_target pass) s1 of
                (None, s2) \<Rightarrow> Some (False, s2)
              | (Some render_pass, s2) \<Rightarrow>
                  (case CreateVKFramebuffer env (render_target pass) render_pass of
                     None \<Rightarrow> None
                   | Some None \<Rightarrow> Some (False, s2)
                   | Some (Some framebuffer) \<Rightarrow>
                       if \<not> Track env (Tracked_Framebuffer framebuffer)
                          \<or> \<not> Track env (Tracked_RenderPass render_pass)
                       then Some (False, s2)
                       else
                         (case AllocateAndBindDescriptorSets env (commands pass) of
                            None \<Rightarrow> Some (False, s2)
                          | Some desc_sets \<Rightarrow>
                              let s3 = record_cmd s2
                                    (BeginRenderPass render_pass framebuffer
                                       (ucast (size_width tgt_size)) (ucast (size_height tgt_size)));
                                  (ok, s4) = encode_commands_loop env s3 (commands pass)
                                               tgt_size desc_sets 0
                              in Some (ok, record_cmd s4 EndRenderPass)))))"

definition OnEncodeCommands :: "Backend \<Rightarrow> RenderPassVK \<Rightarrow> vk_state \<Rightarrow> (bool \<times> vk_state) option" where
  "OnEncodeCommands env pass s =
     (if \<not> is_valid pass then Some (False, s)
      else case command_buffer pass of
             None \<Rightarrow> Some (False, s)
           | Some cb \<Rightarrow>
               if \<not> has_encoder cb then Some (False, s)
               else
                 let marker = (debug_label pass \<noteq> []);
                     s1 = (if marker then record_cmd s (PushDebugGroup (debug_label pass)) else s)
                 in (case encode_pass env pass s1 of
                       None \<Rightarrow> None
                     | Some (ok, s2) \<Rightarrow>
                         Some (ok, if marker then record_cmd s2 PopDebugGroup else s2)))"

section \<open>The canvas\<close>

text \<open>
  \<^verbatim>\<open>CanvasStackEntry\<close> as \<^verbatim>\<open>canvas.h\<close> declares it. The matrix and rectangle types are
  parameters. The rendering modes other than direct are the specification's.
\<close>

datatype RenderingMode = kDirect | kOnscreenSubpass | kOffscreenSubpass

record ('m, 'r) CanvasStackEntry =
  transform :: 'm
  cull_rect :: "'r option"
  clip_depth :: nat
  rendering_mode :: RenderingMode
  contains_clips :: bool

text \<open>The \<^verbatim>\<open>std::deque\<close> of stack entries, its back first.\<close>

record ('m, 'r) Canvas =
  transform_stack :: "('m, 'r) CanvasStackEntry list"

text \<open>
  \<^verbatim>\<open>canvas.cc\<close> is missing from the sources; \<^verbatim>\<open>canvas.h\<close> only declares \<^verbatim>\<open>Save\<close>,
  \<^verbatim>\<open>Restore\<close> and \<^verbatim>\<open>GetSaveCount\<close>. The public \<^verbatim>\<open>Save\<close> opens no subpass, so the pass
  tree is left out.
\<close>

text \<open>
  Modelled from the spec: \<^verbatim>\<open>Canvas::Initialize\<close> is missing from the sources. The initial
  state is depth 1: an implicit root scope always exists. Its fields other than the
  transform and the cull rectangle are the defaults of \<^verbatim>\<open>CanvasStackEntry\<close>.
\<close>

definition Initialize :: "'m \<Rightarrow> 'r option \<Rightarrow> ('m, 'r) Canvas" where
  "Initialize identity cull =
     \<lparr>transform_stack = [\<lparr>transform = identity, cull_rect = cull, clip_depth = 0,
                           rendering_mode = kDirect, contains_clips = False\<rparr>]\<rparr>"

text \<open>
  Modelled from the spec: \<^verbatim>\<open>Canvas::Save\<close> is missing from the sources. It pushes a copy of
  the top stack entry, with transform and cull rectangle inherited and clip depth and clip
  flag reset for the new scope. The stack is never empty (lemma \<open>run_calls_count\<close>); the
  first case is there for totality.
\<close>

definition Save :: "('m, 'r) Canvas \<Rightarrow> ('m, 'r) Canvas" where
  "Save c =
     (case transform_stack c of
        [] \<Rightarrow> c
      | back # below \<Rightarrow>
          c\<lparr>transform_stack :=
              \<lparr>transform = transform back, cull_rect = cull_rect back, clip_depth = 0,
               rendering_mode = kDirect, contains_clips = False\<rparr> # back # below\<rparr>)"

text \<open>
  Modelled from the spec: \<^verbatim>\<open>Canvas::Restore\<close> is missing from the sources. It pops the top
  stack entry and returns true; called beyond the root it returns failure and does not
  decrement below 1.
\<close>

definition Restore :: "('m, 'r) Canvas \<Rightarrow> bool \<times> ('m, 'r) Canvas" where
  "Restore c =
     (if length (transform_stack c) \<le> 1 then (False, c)
      else (True, c\<lparr>transform_stack := tl (transform_stack c)\<rparr>))"

text \<open>
  Modelled from the spec: \<^verbatim>\<open>Canvas::GetSaveCount\<close> is missing from the sources. It is the
  number of stack entries.
\<close>

definition GetSaveCount :: "('m, 'r) Canvas \<Rightarrow> nat" where
  "GetSaveCount c = length (transform_stack c)"

text \<open>A sequence of calls, with the result of every \<^verbatim>\<open>Restore\<close> in call order.\<close>

datatype canvas_call = Call_Save | Call_Restore

fun run_calls :: "canvas_call list \<Rightarrow> ('m, 'r) Canvas \<Rightarrow> bool list \<times> ('m, 'r) Canvas" where
  "run_calls [] c = ([], c)"
| "run_calls (Call_Save # rest) c = run_calls rest (Save c)"
| "run_calls (Call_Restore # rest) c =
     (case Restore c of
        (ok, c') \<Rightarrow> (case run_calls rest c' of (oks, c'') \<Rightarrow> (ok # oks, c'')))"

section \<open>The attachment order in words\<close>

text \<open>
  The order of the attachments as the specification words it: every colour attachment in
  slot order, each immediately followed by its resolve attachment if it has one, then the
  depth attachment if present, then the stencil attachment if present. An entry is the
  attachment and which of its two textures is meant.
\<close>

definition color_order :: "(nat \<times> Attachment) list \<Rightarrow> (Attachment \<times> TexturePtr) list" where
  "color_order colors =
     concat (map (\<lambda>(_, color).
        (color, Ptr_texture) #
          (if resolve_texture color \<noteq> None then [(color, Ptr_resolve_texture)] else [])) colors)"

definition attachment_order :: "RenderTarget \<Rightarrow> (Attachment \<times> TexturePtr) list" where
  "attachment_order rt =
     color_order (GetColorAttachments rt)
     @ (case GetDepthAttachment rt of None \<Rightarrow> [] | Some depth \<Rightarrow> [(depth, Ptr_texture)])
     @ (case GetStencilAttachment rt of None \<Rightarrow> [] | Some stencil \<Rightarrow> [(stencil, Ptr_texture)])"

text \<open>
  Describing a list of attachments one after the other: each description is derived from
  the layouts tracked when its attachment is reached, and the layout of its texture is
  updated before the next one is described.
\<close>

fun describe_in_order ::
  "ImageLayout \<Rightarrow> vk_state \<Rightarrow> (Attachment \<times> TexturePtr) list \<Rightarrow> AttachmentDescription list \<times> vk_state"
  where
  "describe_in_order final s [] = ([], s)"
| "describe_in_order final s ((a, p) # rest) =
     (let d = CreateAttachmentDescription final s a p;
          (ds, s') = describe_in_order final (SetTextureLayout s a d p) rest
      in (d # ds, s'))"

text \<open>The image view the framebuffer holds for an entry of the attachment order.\<close>

definition view_of :: "Attachment \<times> TexturePtr \<Rightarrow> nat option" where
  "view_of e = map_option GetImageView (member_ptr (fst e) (snd e))"

section \<open>The recorded trace in words\<close>

text \<open>
  Kinds of recorded commands, the sampled textures of a command list in binding order, the
  transition each of them needs, and what encoding one command records: \<open>encoded\<close> is the
  list of calls \<^verbatim>\<open>EncodeCommand\<close> adds to an empty recording, \<open>encodes\<close> its result, and
  \<open>encoded_count\<close> the number of commands the loop reaches, which is one past the first
  command that fails. \<open>unusable_buffers\<close> is a command whose vertex buffer view is empty,
  or whose vertex buffer, or index buffer when the index type asks for one, resolves to no
  device buffer.
\<close>

definition is_begin :: "vk_cmd \<Rightarrow> bool" where
  "is_begin c = (case c of BeginRenderPass _ _ _ _ \<Rightarrow> True | _ \<Rightarrow> False)"

definition is_barrier :: "vk_cmd \<Rightarrow> bool" where
  "is_barrier c = (case c of PipelineBarrier _ _ \<Rightarrow> True | _ \<Rightarrow> False)"

definition is_draw :: "vk_cmd \<Rightarrow> bool" where
  "is_draw c = (case c of Draw _ _ _ \<Rightarrow> True | DrawIndexed _ _ _ \<Rightarrow> True | _ \<Rightarrow> False)"

definition is_bind_sets :: "vk_cmd \<Rightarrow> bool" where
  "is_bind_sets c = (case c of BindDescriptorSets _ _ \<Rightarrow> True | _ \<Rightarrow> False)"

definition is_marker :: "vk_cmd \<Rightarrow> bool" where
  "is_marker c = (case c of PushDebugGroup _ \<Rightarrow> True | PopDebugGroup \<Rightarrow> True | _ \<Rightarrow> False)"

text \<open>The draw call of a command: indexed when the index type is not \<^verbatim>\<open>kNone\<close>.\<close>

definition draw_call :: "Command \<Rightarrow> vk_cmd" where
  "draw_call command =
     (if vb_index_type (vertex_buffer command) \<noteq> Index_kNone
      then DrawIndexed (ucast (vb_vertex_count (vertex_buffer command)))
             (ucast (instance_count command)) (ucast (base_vertex command))
      else Draw (ucast (vb_vertex_count (vertex_buffer command)))
             (ucast (instance_count command)) (ucast (base_vertex command)))"

text \<open>The debug group of the pass, opened and closed only for a non-empty label.\<close>

definition debug_push :: "string \<Rightarrow> vk_cmd list" where
  "debug_push l = (if l \<noteq> [] then [PushDebugGroup l] else [])"

definition debug_pop :: "string \<Rightarrow> vk_cmd list" where
  "debug_pop l = (if l \<noteq> [] then [PopDebugGroup] else [])"

definition sampled_textures :: "Command list \<Rightarrow> Texture list" where
  "sampled_textures cmds =
     concat (map (\<lambda>command. map snd (sampled_images (vertex_bindings command))
                           @ map snd (sampled_images (fragment_bindings command))) cmds)"

definition shader_read_transition :: "Texture \<Rightarrow> vk_cmd" where
  "shader_read_transition t = PipelineBarrier (tex_id t) binding_barrier"

text \<open>A texture whose resource is still there, so that its transitions can be satisfied.\<close>

definition has_layout :: "vk_state \<Rightarrow> Texture \<Rightarrow> bool" where
  "has_layout s t = (layouts s (tex_id t) \<noteq> None)"

text \<open>
  What \<^verbatim>\<open>EncodeCommand\<close> records and returns depends on the command, the target size and
  the descriptor set, not on the state it starts from (lemma \<open>EncodeCommand_closed\<close>).
\<close>

definition no_state :: vk_state where
  "no_state = \<lparr>layouts = Map.empty, recorded = []\<rparr>"

definition encoded :: "Backend \<Rightarrow> ISize \<Rightarrow> Command \<Rightarrow> nat \<Rightarrow> vk_cmd list" where
  "encoded env tgt_size command vk_desc_set =
     recorded (snd (EncodeCommand env no_state command tgt_size vk_desc_set))"

definition encodes :: "Backend \<Rightarrow> Command \<Rightarrow> bool" where
  "encodes env command =
     fst (EncodeCommand env no_state command \<lparr>size_width = 0, size_height = 0\<rparr> 0)"

definition encoded_count :: "Backend \<Rightarrow> Command list \<Rightarrow> nat" where
  "encoded_count env cmds = min (length cmds) (Suc (length (takeWhile (encodes env) cmds)))"

definition unusable_buffers :: "Backend \<Rightarrow> Command \<Rightarrow> bool" where
  "unusable_buffers env command =
     (case bv_buffer (vb_vertex_buffer (vertex_buffer command)) of
        None \<Rightarrow> True
      | Some buffer \<Rightarrow>
          GetDeviceBuffer env buffer = None
          \<or> (vb_index_type (vertex_buffer command) \<noteq> Index_kNone
              \<and> (case bv_buffer (vb_index_buffer (vertex_buffer command)) of
                    None \<Rightarrow> False
                  | Some ibuffer \<Rightarrow> GetDeviceBuffer env ibuffer = None)))"

text \<open>
  The calls every command records before its vertex buffer is looked at, and the debug
  group of a labelled command.
\<close>

definition header_events :: "ISize \<Rightarrow> Command \<Rightarrow> nat \<Rightarrow> vk_cmd list" where
  "header_events tgt command d =
     BindDescriptorSets (GetPipelineLayout (pipeline command)) d
     # Cache_BindPipeline (GetPipeline (pipeline command))
     # recorded (SetViewportAndScissor no_state command tgt)
     @ [Cache_SetStencilReference (stencil_reference command)]"

definition command_push :: "Backend \<Rightarrow> Command \<Rightarrow> vk_cmd list" where
  "command_push env command =
     (if IMPELLER_DEBUG env \<and> label command \<noteq> [] then [PushDebugGroup (label command)] else [])"

definition command_pop :: "Backend \<Rightarrow> Command \<Rightarrow> vk_cmd list" where
  "command_pop env command =
     (if IMPELLER_DEBUG env \<and> label command \<noteq> [] then [PopDebugGroup] else [])"

text \<open>
  What encoding the first \<open>m\<close> commands of a list records, in list order, when the
  descriptor index starts at \<open>desc_index\<close>: command \<open>i\<close> is encoded with the descriptor set
  at the 32-bit index \<open>desc_index + i\<close>.
\<close>

definition loop_events ::
  "Backend \<Rightarrow> ISize \<Rightarrow> Command list \<Rightarrow> nat list \<Rightarrow> 32 word \<Rightarrow> nat \<Rightarrow> vk_cmd list" where
  "loop_events env tgt_size cmds desc_sets desc_index m =
     concat (map (\<lambda>i. encoded env tgt_size (cmds ! i) (desc_sets ! unat (desc_index + of_nat i)))
               [0..<m])"

section \<open>Example values\<close>

definition ex_tex_color :: Texture where
  "ex_tex_color = \<lparr>tex_id = 1, GetTextureDescriptor =
      \<lparr>storage_mode = kDeviceTransient, format = kR8G8B8A8UNormInt, sample_count = kCount4\<rparr>\<rparr>"

definition ex_tex_resolve :: Texture where
  "ex_tex_resolve = \<lparr>tex_id = 2, GetTextureDescriptor =
      \<lparr>storage_mode = kDevicePrivate, format = kR8G8B8A8UNormInt, sample_count = kCount1\<rparr>\<rparr>"

definition ex_tex_transient :: Texture where
  "ex_tex_transient = \<lparr>tex_id = 3, GetTextureDescriptor =
      \<lparr>storage_mode = kDeviceTransient, format = kR8G8B8A8UNormInt, sample_count = kCount1\<rparr>\<rparr>"

definition ex_color :: Attachment where
  "ex_color = \<lparr>texture = Some ex_tex_color, resolve_texture = Some ex_tex_resolve,
               load_action = Load_kLoad, store_action = Store_kStore\<rparr>"

definition ex_color_transient_resolve :: Attachment where
  "ex_color_transient_resolve =
     \<lparr>texture = Some ex_tex_color, resolve_texture = Some ex_tex_transient,
      load_action = Load_kClear, store_action = Store_kStore\<rparr>"

definition ex_state :: vk_state where
  "ex_state = \<lparr>layouts = [1 \<mapsto> eUndefined, 2 \<mapsto> eShaderReadOnlyOptimal, 3 \<mapsto> eGeneral,
                            4 \<mapsto> ePresentSrcKHR, 5 \<mapsto> eUndefined],
               recorded = []\<rparr>"

definition ex_tex_present :: Texture where
  "ex_tex_present = \<lparr>tex_id = 4, GetTextureDescriptor =
      \<lparr>storage_mode = kDevicePrivate, format = kB8G8R8A8UNormInt, sample_count = kCount1\<rparr>\<rparr>"

definition ex_tex_depth_stencil :: Texture where
  "ex_tex_depth_stencil = \<lparr>tex_id = 5, GetTextureDescriptor =
      \<lparr>storage_mode = kDeviceTransient, format = kD32FloatS8UInt, sample_count = kCount1\<rparr>\<rparr>"

definition ex_color2 :: Attachment where
  "ex_color2 = \<lparr>texture = Some ex_tex_present, resolve_texture = None,
                load_action = Load_kClear, store_action = Store_kStore\<rparr>"

definition ex_depth :: Attachment where
  "ex_depth = \<lparr>texture = Some ex_tex_depth_stencil, resolve_texture = None,
               load_action = Load_kClear, store_action = Store_kDontCare\<rparr>"

definition ex_stencil :: Attachment where
  "ex_stencil = \<lparr>texture = Some ex_tex_depth_stencil, resolve_texture = None,
                 load_action = Load_kLoad, store_action = Store_kDontCare\<rparr>"

definition ex_target :: RenderTarget where
  "ex_target = \<lparr>rt_colors = [(0, ex_color), (2, ex_color2)],
                rt_depth = Some ex_depth, rt_stencil = Some ex_stencil,
                rt_size = \<lparr>size_width = 4, size_height = 4\<rparr>\<rparr>"

definition ex_env :: Backend where
  "ex_env = \<lparr>final_layout = eGeneral,
             createRenderPassUnique = (\<lambda>_. True),
             createFramebufferUnique = (\<lambda>_. True),
             GetDeviceBuffer = (\<lambda>b. if b = 9 then None else Some (b + 100)),
             Track = (\<lambda>_. True),
             descriptor_pool = [7, 8, 9, 10],
             IMPELLER_DEBUG = False\<rparr>"


definition ex_command :: Command where
  "ex_command = \<lparr>pipeline = \<lparr>GetPipelineLayout = 1, GetPipeline = 2\<rparr>,
                 vertex_bindings = \<lparr>sampled_images = []\<rparr>,
                 fragment_bindings = \<lparr>sampled_images = [(0, ex_tex_resolve)]\<rparr>,
                 vertex_buffer = \<lparr>vb_vertex_buffer = \<lparr>bv_buffer = Some 1, bv_range_offset = 0\<rparr>,
                                   vb_index_buffer = \<lparr>bv_buffer = None, bv_range_offset = 0\<rparr>,
                                   vb_vertex_count = 3, vb_index_type = Index_kNone\<rparr>,
                 viewport = None, scissor = None, stencil_reference = 0,
                 instance_count = 1, base_vertex = 0, label = []\<rparr>"

definition ex_command_indexed :: Command where
  "ex_command_indexed = ex_command\<lparr>vertex_buffer :=
       \<lparr>vb_vertex_buffer = \<lparr>bv_buffer = Some 2, bv_range_offset = 16\<rparr>,
        vb_index_buffer = \<lparr>bv_buffer = Some 3, bv_range_offset = 0\<rparr>,
        vb_vertex_count = 6, vb_index_type = Index_k16bit\<rparr>\<rparr>"

definition ex_command_empty :: Command where
  "ex_command_empty = ex_command\<lparr>vertex_buffer :=
       \<lparr>vb_vertex_buffer = \<lparr>bv_buffer = None, bv_range_offset = 0\<rparr>,
        vb_index_buffer = \<lparr>bv_buffer = None, bv_range_offset = 0\<rparr>,
        vb_vertex_count = 3, vb_index_type = Index_kNone\<rparr>\<rparr>"


definition ex_pass :: RenderPassVK where
  "ex_pass = \<lparr>render_target = ex_target, commands = [ex_command, ex_command_indexed],
              debug_label = ''pass'', is_valid = True,
              command_buffer = Some \<lparr>has_encoder = True\<rparr>\<rparr>"


definition ex_pass_empty :: RenderPassVK where
  "ex_pass_empty = ex_pass\<lparr>commands := [ex_command, ex_command_empty, ex_command_indexed]\<rparr>"

section \<open>Properties of the attachment descriptions\<close>

text \<open>
  C2, as the code has it. For an attachment whose described texture is present, the store
  action of the derived description is don't-care whenever the storage mode of the texture
  is device-transient, whatever store action the caller asked for; it is store whenever the
  described texture is the resolve texture of the attachment and its storage mode is not
  device-transient. The transient clamp is tested first and the resolve clamp only in its
  else branch.
\<close>

theorem store_action_clamps:
  assumes "member_ptr attachment texture_ptr = Some tex"
  shows "(storage_mode (GetTextureDescriptor tex) = kDeviceTransient \<longrightarrow>
            storeOp (CreateAttachmentDescription final s attachment texture_ptr) = Store_kDontCare)
       \<and> (storage_mode (GetTextureDescriptor tex) \<noteq> kDeviceTransient
            \<and> texture_ptr = Ptr_resolve_texture \<longrightarrow>
            storeOp (CreateAttachmentDescription final s attachment texture_ptr) = Store_kStore)"
  using assms
  by (cases texture_ptr)
     (simp_all add: CreateAttachmentDescription_def CreateAttachmentDescription5_def Let_def)

theorem store_action_clamps_witness:
  "member_ptr ex_color Ptr_texture = Some ex_tex_color
   \<and> storage_mode (GetTextureDescriptor ex_tex_color) = kDeviceTransient
   \<and> store_action ex_color = Store_kStore
   \<and> storeOp (CreateAttachmentDescription eGeneral ex_state ex_color Ptr_texture) = Store_kDontCare
   \<and> member_ptr ex_color Ptr_resolve_texture = Some ex_tex_resolve
   \<and> storage_mode (GetTextureDescriptor ex_tex_resolve) \<noteq> kDeviceTransient
   \<and> storeOp (CreateAttachmentDescription eGeneral ex_state ex_color Ptr_resolve_texture) = Store_kStore"
proof -
  have a: "member_ptr ex_color Ptr_texture = Some ex_tex_color"
    by (simp add: ex_color_def)
  have b: "member_ptr ex_color Ptr_resolve_texture = Some ex_tex_resolve"
    by (simp add: ex_color_def)
  have c: "store_action ex_color = Store_kStore"
    by (simp add: ex_color_def)
  show ?thesis
    using store_action_clamps [OF a, of eGeneral ex_state]
      store_action_clamps [OF b, of eGeneral ex_state] a b c
    by (simp add: ex_tex_color_def ex_tex_resolve_def)
qed

text \<open>
  C2 as the specification words it fails: a resolve texture whose storage mode is
  device-transient is described with the store action don't-care, not store.
\<close>

theorem resolve_store_counterexample:
  "member_ptr ex_color_transient_resolve Ptr_resolve_texture = Some ex_tex_transient
   \<and> storeOp (CreateAttachmentDescription eGeneral ex_state ex_color_transient_resolve
        Ptr_resolve_texture) \<noteq> Store_kStore"
  by (simp add: CreateAttachmentDescription_def CreateAttachmentDescription5_def Let_def
      ex_color_transient_resolve_def ex_tex_transient_def)

text \<open>
  C3. For an attachment whose described texture is present and whose tracked layout is the
  undefined sentinel, the load action of the derived description is clear, whatever load
  action the attachment asks for.
\<close>

theorem undefined_layout_forces_clear:
  assumes "member_ptr attachment texture_ptr = Some tex" and "GetLayout s tex = eUndefined"
  shows "loadOp (CreateAttachmentDescription final s attachment texture_ptr) = Load_kClear"
  using assms
  by (simp add: CreateAttachmentDescription_def CreateAttachmentDescription5_def Let_def)

theorem undefined_layout_forces_clear_witness:
  "member_ptr ex_color Ptr_texture = Some ex_tex_color
   \<and> GetLayout ex_state ex_tex_color = eUndefined
   \<and> load_action ex_color = Load_kLoad
   \<and> loadOp (CreateAttachmentDescription eGeneral ex_state ex_color Ptr_texture) = Load_kClear"
proof -
  have a: "member_ptr ex_color Ptr_texture = Some ex_tex_color"
    by (simp add: ex_color_def)
  have b: "GetLayout ex_state ex_tex_color = eUndefined"
    by (simp add: GetLayout_def ex_state_def ex_tex_color_def)
  show ?thesis
    using undefined_layout_forces_clear [OF a b, of eGeneral] a b by (simp add: ex_color_def)
qed



section \<open>Properties of the canvas stack\<close>

lemma Save_count:
  "transform_stack c \<noteq> [] \<Longrightarrow> GetSaveCount (Save c) = Suc (GetSaveCount c)"
  by (cases "transform_stack c") (simp_all add: Save_def GetSaveCount_def)

lemma Restore_count:
  "Restore c = (ok, c') \<Longrightarrow> transform_stack c \<noteq> [] \<Longrightarrow>
     GetSaveCount c' + (if ok then 1 else 0) = GetSaveCount c \<and> transform_stack c' \<noteq> []"
  by (cases "transform_stack c"; cases "tl (transform_stack c)")
     (auto simp add: Restore_def GetSaveCount_def split: if_splits)

lemma run_calls_count:
  "run_calls calls c = (oks, c') \<Longrightarrow> transform_stack c \<noteq> [] \<Longrightarrow>
     GetSaveCount c' + length (filter id oks) = GetSaveCount c + count_list calls Call_Save
     \<and> transform_stack c' \<noteq> [] \<and> length oks = count_list calls Call_Restore"
proof (induction calls c arbitrary: oks c' rule: run_calls.induct)
  case (1 c)
  then show ?case by simp
next
  case (2 rest c)
  have ne: "transform_stack (Save c) \<noteq> []"
    using 2(3) by (cases "transform_stack c") (simp_all add: Save_def)
  from 2(1) [OF _ ne, of oks c'] 2(2) Save_count [OF 2(3)]
  show ?case by simp
next
  case (3 rest c)
  obtain ok c1 where r: "Restore c = (ok, c1)" by (cases "Restore c")
  obtain oks1 c2 where rr: "run_calls rest c1 = (oks1, c2)" by (cases "run_calls rest c1")
  from 3(2) r rr have eq: "oks = ok # oks1" "c' = c2" by simp_all
  from Restore_count [OF r 3(3)]
  have a: "GetSaveCount c1 + (if ok then 1 else 0) = GetSaveCount c"
    and ne: "transform_stack c1 \<noteq> []" by simp_all
  from 3(1) [OF r [symmetric] rr ne] a eq
  show ?case by (simp split: if_splits)
qed

text \<open>
  C9. After any sequence of \<^verbatim>\<open>Save\<close> and \<^verbatim>\<open>Restore\<close> calls on a fresh canvas, the save count
  is 1 plus the number of \<^verbatim>\<open>Save\<close> calls minus the number of \<^verbatim>\<open>Restore\<close> calls that returned
  true; it is at least 1 (after the sequence, hence after each of its prefixes); and a
  \<^verbatim>\<open>Restore\<close> at depth 1 returns false and leaves the canvas as it is.
\<close>

theorem save_restore_count:
  assumes "run_calls calls (Initialize m cull) = (oks, c')"
  shows "int (GetSaveCount c')
           = 1 + (int (count_list calls Call_Save) - int (length (filter id oks)))
       \<and> length oks = count_list calls Call_Restore
       \<and> 1 \<le> GetSaveCount c'
       \<and> (GetSaveCount c' = 1 \<longrightarrow> Restore c' = (False, c'))"
proof -
  have ne: "transform_stack (Initialize m cull) \<noteq> []"
    by (simp add: Initialize_def)
  have one: "GetSaveCount (Initialize m cull) = 1"
    by (simp add: Initialize_def GetSaveCount_def)
  from run_calls_count [OF assms ne] one
  have a: "GetSaveCount c' + length (filter id oks) = 1 + count_list calls Call_Save"
    and b: "transform_stack c' \<noteq> []"
    and c: "length oks = count_list calls Call_Restore" by simp_all
  from b have d: "1 \<le> GetSaveCount c'"
    by (cases "transform_stack c'") (simp_all add: GetSaveCount_def)
  have e: "GetSaveCount c' = 1 \<longrightarrow> Restore c' = (False, c')"
    by (simp add: Restore_def GetSaveCount_def)
  from a have "int (GetSaveCount c')
      = 1 + (int (count_list calls Call_Save) - int (length (filter id oks)))"
    by linarith
  with c d e show ?thesis by blast
qed

theorem save_restore_count_witness:
  "run_calls [Call_Save, Call_Restore, Call_Restore, Call_Save, Call_Save]
       (Initialize (0::nat) (None :: nat option))
     = ([True, False], snd (run_calls [Call_Save, Call_Restore, Call_Restore, Call_Save, Call_Save]
          (Initialize 0 None)))
   \<and> GetSaveCount (snd (run_calls [Call_Save, Call_Restore, Call_Restore, Call_Save, Call_Save]
        (Initialize (0::nat) (None :: nat option)))) = 3
   \<and> GetSaveCount (snd (run_calls [Call_Save, Call_Restore]
        (Initialize (0::nat) (None :: nat option)))) = 1
   \<and> Restore (snd (run_calls [Call_Save, Call_Restore] (Initialize (0::nat) (None :: nat option))))
       = (False, snd (run_calls [Call_Save, Call_Restore] (Initialize 0 None)))"
proof -
  have a: "run_calls [Call_Save, Call_Restore, Call_Restore, Call_Save, Call_Save]
       (Initialize (0::nat) (None :: nat option))
     = ([True, False], snd (run_calls [Call_Save, Call_Restore, Call_Restore, Call_Save, Call_Save]
          (Initialize 0 None)))"
    by (simp add: Initialize_def Save_def Restore_def)
  have b: "run_calls [Call_Save, Call_Restore] (Initialize (0::nat) (None :: nat option))
     = ([True], snd (run_calls [Call_Save, Call_Restore] (Initialize 0 None)))"
    by (simp add: Initialize_def Save_def Restore_def)
  have c: "GetSaveCount (snd (run_calls [Call_Save, Call_Restore]
        (Initialize (0::nat) (None :: nat option)))) = 1"
    by (simp add: Initialize_def Save_def Restore_def GetSaveCount_def)
  show ?thesis
    using save_restore_count [OF a] save_restore_count [OF b] a c by simp
qed

section \<open>Properties of the render pass and the framebuffer\<close>

lemma describe_in_order_Cons:
  "describe_in_order final s ((a, p) # rest) =
     (CreateAttachmentDescription final s a p
        # fst (describe_in_order final
                 (SetTextureLayout s a (CreateAttachmentDescription final s a p) p) rest),
      snd (describe_in_order final
             (SetTextureLayout s a (CreateAttachmentDescription final s a p) p) rest))"
  by (simp add: Let_def case_prod_beta)

declare describe_in_order.simps(2) [simp del]

lemma describe_in_order_append:
  "describe_in_order final s (xs @ ys) =
     (fst (describe_in_order final s xs) @ fst (describe_in_order final (snd (describe_in_order final s xs)) ys),
      snd (describe_in_order final (snd (describe_in_order final s xs)) ys))"
  by (induction xs arbitrary: s) (auto simp add: describe_in_order_Cons)

lemma length_describe_in_order:
  "length (fst (describe_in_order final s xs)) = length xs"
  by (induction xs arbitrary: s) (auto simp add: describe_in_order_Cons)

lemma describe_in_order_nth:
  "i < length xs \<Longrightarrow>
     fst (describe_in_order final s xs) ! i =
       CreateAttachmentDescription final (snd (describe_in_order final s (take i xs)))
         (fst (xs ! i)) (snd (xs ! i))"
proof (induction xs arbitrary: s i)
  case Nil
  then show ?case by simp
next
  case (Cons x xs)
  obtain a p where x: "x = (a, p)" by (cases x)
  show ?case
  proof (cases i)
    case 0
    then show ?thesis by (simp add: x describe_in_order_Cons)
  next
    case (Suc j)
    with Cons.prems have "j < length xs" by simp
    from Cons.IH [OF this] Suc show ?thesis
      by (simp add: x describe_in_order_Cons)
  qed
qed

lemma color_order_Cons:
  "color_order ((b, color) # rest) =
     (color, Ptr_texture) #
       (if resolve_texture color \<noteq> None then [(color, Ptr_resolve_texture)] else [])
     @ color_order rest"
  by (simp add: color_order_def)

lemma color_order_Nil: "color_order [] = []"
  by (simp add: color_order_def)

lemma color_loop_attachments:
  "color_attachments_loop final cs (atts, crefs, rrefs, s) = (atts', crefs', rrefs', s') \<Longrightarrow>
     atts' = atts @ fst (describe_in_order final s (color_order cs))
     \<and> s' = snd (describe_in_order final s (color_order cs))"
proof (induction cs arbitrary: atts crefs rrefs s)
  case Nil
  then show ?case by (simp add: color_order_Nil)
next
  case (Cons c cs)
  obtain b color where c: "c = (b, color)" by (cases c)
  show ?case
  proof (cases "resolve_texture color = None")
    case True
    with Cons.prems c have
      "color_attachments_loop final cs
         (atts @ [CreateAttachmentDescription final s color Ptr_texture],
          crefs[b := \<lparr>ref_attachment = of_nat (length atts), ref_layout = eColorAttachmentOptimal\<rparr>],
          rrefs,
          SetTextureLayout s color (CreateAttachmentDescription final s color Ptr_texture) Ptr_texture)
       = (atts', crefs', rrefs', s')"
      by (simp add: Let_def)
    from Cons.IH [OF this] True show ?thesis
      by (simp add: c color_order_Cons describe_in_order_Cons)
  next
    case False
    with Cons.prems c have
      "color_attachments_loop final cs
         (atts @ [CreateAttachmentDescription final s color Ptr_texture]
            @ [CreateAttachmentDescription final
                 (SetTextureLayout s color (CreateAttachmentDescription final s color Ptr_texture) Ptr_texture)
                 color Ptr_resolve_texture],
          crefs[b := \<lparr>ref_attachment = of_nat (length atts), ref_layout = eColorAttachmentOptimal\<rparr>],
          rrefs[b := \<lparr>ref_attachment = of_nat (Suc (length atts)), ref_layout = eGeneral\<rparr>],
          SetTextureLayout
            (SetTextureLayout s color (CreateAttachmentDescription final s color Ptr_texture) Ptr_texture)
            color
            (CreateAttachmentDescription final
                 (SetTextureLayout s color (CreateAttachmentDescription final s color Ptr_texture) Ptr_texture)
                 color Ptr_resolve_texture)
            Ptr_resolve_texture)
       = (atts', crefs', rrefs', s')"
      by (simp add: Let_def)
    from Cons.IH [OF this] False show ?thesis
      by (simp add: c color_order_Cons describe_in_order_Cons)
  qed
qed

lemma render_pass_desc_attachments:
  "rp_attachments (fst (CreateVKRenderPass_desc final rt s)) = fst (describe_in_order final s (attachment_order rt))
   \<and> snd (CreateVKRenderPass_desc final rt s) = snd (describe_in_order final s (attachment_order rt))"
proof -
  obtain atts crefs rrefs s1 where loop:
    "color_attachments_loop final (GetColorAttachments rt)
       ([], replicate (GetMaxColorAttacmentBindIndex rt + 1) kUnusedAttachmentReference,
        replicate (GetMaxColorAttacmentBindIndex rt + 1) kUnusedAttachmentReference, s)
     = (atts, crefs, rrefs, s1)"
    by (metis prod_cases4)
  from color_loop_attachments [OF loop]
  have a: "atts = fst (describe_in_order final s (color_order (GetColorAttachments rt)))"
    and b: "s1 = snd (describe_in_order final s (color_order (GetColorAttachments rt)))"
    by simp_all
  show ?thesis
    unfolding CreateVKRenderPass_desc_def attachment_order_def
    using loop a b
    by (simp add: Let_def case_prod_beta describe_in_order_append describe_in_order_Cons split: option.splits)
qed

lemma color_loop_Cons:
  "color_attachments_loop final ((b, color) # rest) (atts, crefs, rrefs, s) =
     color_attachments_loop final rest
       (atts @ fst (describe_in_order final s (color_order [(b, color)])),
        crefs[b := \<lparr>ref_attachment = of_nat (length atts), ref_layout = eColorAttachmentOptimal\<rparr>],
        (if resolve_texture color \<noteq> None
         then rrefs[b := \<lparr>ref_attachment = of_nat (Suc (length atts)), ref_layout = eGeneral\<rparr>]
         else rrefs),
        snd (describe_in_order final s (color_order [(b, color)])))"
  by (simp add: Let_def color_order_def describe_in_order_Cons)

lemma color_loop_refs_length:
  "length (fst (snd (color_attachments_loop final cs (atts, crefs, rrefs, s)))) = length crefs"
proof (induction cs arbitrary: atts crefs rrefs s)
  case Nil
  then show ?case by simp
next
  case (Cons c cs)
  obtain b color where c: "c = (b, color)" by (cases c)
  show ?case unfolding c color_loop_Cons by (simp add: Cons.IH)
qed

lemma color_loop_refs_untouched:
  "i \<notin> fst ` set cs \<Longrightarrow>
     fst (snd (color_attachments_loop final cs (atts, crefs, rrefs, s))) ! i = crefs ! i"
proof (induction cs arbitrary: atts crefs rrefs s)
  case Nil
  then show ?case by simp
next
  case (Cons c cs)
  obtain b color where c: "c = (b, color)" by (cases c)
  from Cons.prems c have "i \<noteq> b" and "i \<notin> fst ` set cs" by auto
  then show ?case unfolding c color_loop_Cons by (simp add: Cons.IH)
qed

lemma color_order_append: "color_order (xs @ ys) = color_order xs @ color_order ys"
  by (simp add: color_order_def)

lemma length_color_order_single: "length (color_order [(b, color)]) = (if resolve_texture color \<noteq> None then 2 else 1)"
  by (simp add: color_order_def)

lemma color_loop_ref_nth:
  "distinct (map fst cs) \<Longrightarrow> j < length cs \<Longrightarrow> fst (cs ! j) < length crefs \<Longrightarrow>
     fst (snd (color_attachments_loop final cs (atts, crefs, rrefs, s))) ! fst (cs ! j) =
       \<lparr>ref_attachment = of_nat (length atts + length (color_order (take j cs))),
        ref_layout = eColorAttachmentOptimal\<rparr>"
proof (induction cs arbitrary: j atts crefs rrefs s)
  case Nil
  then show ?case by simp
next
  case (Cons c cs)
  obtain b color where c: "c = (b, color)" by (cases c)
  show ?case
  proof (cases j)
    case 0
    from Cons.prems(1) c have "b \<notin> fst ` set cs" by simp
    from color_loop_refs_untouched [OF this] Cons.prems(3) 0 c
    show ?thesis unfolding c color_loop_Cons by (simp add: color_order_Nil)
  next
    case (Suc j')
    from Cons.prems Suc have d: "distinct (map fst cs)" and j: "j' < length cs" 
      and r: "fst (cs ! j') < length crefs" by simp_all
    have "color_order (take j (c # cs)) = color_order [(b, color)] @ color_order (take j' cs)"
      using Suc c color_order_append [of "[(b, color)]" "take j' cs"] by simp
    moreover
    from Cons.IH [OF d j, of "crefs[b := \<lparr>ref_attachment = of_nat (length atts), ref_layout = eColorAttachmentOptimal\<rparr>]"]
      r
    have "fst (snd (color_attachments_loop final cs
            (atts @ fst (describe_in_order final s (color_order [(b, color)])),
             crefs[b := \<lparr>ref_attachment = of_nat (length atts), ref_layout = eColorAttachmentOptimal\<rparr>],
             (if resolve_texture color \<noteq> None
              then rrefs[b := \<lparr>ref_attachment = of_nat (Suc (length atts)), ref_layout = eGeneral\<rparr>]
              else rrefs),
             snd (describe_in_order final s (color_order [(b, color)]))))) ! fst (cs ! j')
          = \<lparr>ref_attachment = of_nat (length (atts @ fst (describe_in_order final s (color_order [(b, color)])))
                 + length (color_order (take j' cs))),
             ref_layout = eColorAttachmentOptimal\<rparr>"
      by simp
    ultimately show ?thesis
      unfolding c color_loop_Cons using Suc
      by (simp add: length_describe_in_order add.assoc)
  qed
qed

lemma fold_max_ge_init:
  "m \<le> fold (\<lambda>(bind_point, _) m. max bind_point m) cs (m::nat)"
proof (induction cs arbitrary: m)
  case Nil
  then show ?case by simp
next
  case (Cons c cs)
  obtain b color where c: "c = (b, color)" by (cases c)
  have "max b m \<le> fold (\<lambda>(bind_point, _) m. max bind_point m) cs (max b m)" by (rule Cons.IH)
  then show ?case by (simp add: c)
qed

lemma fold_max_ge_key:
  "b \<in> fst ` set cs \<Longrightarrow> b \<le> fold (\<lambda>(bind_point, _) m. max bind_point m) cs (m::nat)"
proof (induction cs arbitrary: m)
  case Nil
  then show ?case by simp
next
  case (Cons c cs)
  obtain b' color where c: "c = (b', color)" by (cases c)
  show ?case
  proof (cases "b = b'")
    case True
    have "max b' m \<le> fold (\<lambda>(bind_point, _) m. max bind_point m) cs (max b' m)"
      by (rule fold_max_ge_init)
    with True show ?thesis by (simp add: c)
  next
    case False
    with Cons.prems c have "b \<in> fst ` set cs" by auto
    from Cons.IH [OF this] show ?thesis by (simp add: c)
  qed
qed

lemma bind_point_in_range:
  "b \<in> fst ` set (GetColorAttachments rt) \<Longrightarrow> b < GetMaxColorAttacmentBindIndex rt + 1"
  using fold_max_ge_key [of b "rt_colors rt" 0]
  by (simp add: GetColorAttachments_def GetMaxColorAttacmentBindIndex_def)

lemma render_pass_desc_color_refs:
  "rp_color_refs (fst (CreateVKRenderPass_desc final rt s)) =
     fst (snd (color_attachments_loop final (GetColorAttachments rt)
       ([], replicate (GetMaxColorAttacmentBindIndex rt + 1) kUnusedAttachmentReference,
        replicate (GetMaxColorAttacmentBindIndex rt + 1) kUnusedAttachmentReference, s)))"
  by (simp add: CreateVKRenderPass_desc_def Let_def case_prod_beta split: option.splits)

lemma color_order_nth_texture:
  assumes j: "j < length cs"
  shows "length (color_order (take j cs)) < length (color_order cs)
     \<and> color_order cs ! length (color_order (take j cs)) = (snd (cs ! j), Ptr_texture)"
proof -
  obtain b color where bc: "cs ! j = (b, color)" by (cases "cs ! j")
  from j have "cs = take j cs @ cs ! j # drop (Suc j) cs"
    by (simp add: id_take_nth_drop)
  then have "color_order cs = color_order (take j cs) @ color_order ((b, color) # drop (Suc j) cs)"
    using color_order_append bc by metis
  then show ?thesis by (simp add: color_order_Cons nth_append bc)
qed

lemma framebuffer_color_loop_views:
  "framebuffer_color_loop cs acc = Some views \<Longrightarrow>
     map Some views = map Some acc @ map view_of (color_order cs)"
proof (induction cs arbitrary: acc)
  case Nil
  then show ?case by (simp add: color_order_Nil)
next
  case (Cons c cs)
  obtain b color where c: "c = (b, color)" by (cases c)
  from Cons.prems c obtain tex where t: "texture color = Some tex"
    by (cases "texture color") simp_all
  show ?case
  proof (cases "resolve_texture color")
    case None
    with Cons.prems c t have "framebuffer_color_loop cs (acc @ [GetImageView tex]) = Some views"
      by (simp add: Let_def)
    from Cons.IH [OF this] None t show ?thesis
      by (simp add: c color_order_Cons view_of_def)
  next
    case (Some r)
    with Cons.prems c t have
      "framebuffer_color_loop cs ((acc @ [GetImageView tex]) @ [GetImageView r]) = Some views"
      by (simp add: Let_def)
    from Cons.IH [OF this] Some t show ?thesis
      by (simp add: c color_order_Cons view_of_def)
  qed
qed

lemma framebuffer_attachments_views:
  assumes "CreateVKFramebuffer_attachments rt = Some views"
  shows "map Some views = map view_of (attachment_order rt)"
proof -
  from assms obtain v1 where l: "framebuffer_color_loop (GetColorAttachments rt) [] = Some v1"
    by (auto simp add: CreateVKFramebuffer_attachments_def split: option.splits)
  from framebuffer_color_loop_views [OF l]
  have a: "map Some v1 = map view_of (color_order (GetColorAttachments rt))" by simp
  from assms l a show ?thesis
    by (auto simp add: CreateVKFramebuffer_attachments_def attachment_order_def view_of_def
        split: option.splits)
qed

lemma CreateVKRenderPass_eq:
  "CreateVKRenderPass env rt s =
     (if createRenderPassUnique env (fst (CreateVKRenderPass_desc (final_layout env) rt s))
      then Some (fst (CreateVKRenderPass_desc (final_layout env) rt s)) else None,
      snd (CreateVKRenderPass_desc (final_layout env) rt s))"
  by (simp add: CreateVKRenderPass_def case_prod_beta)

lemma CreateVKFramebuffer_eq:
  "CreateVKFramebuffer env rt pass = Some (Some fb) \<Longrightarrow>
     CreateVKFramebuffer_attachments rt = Some (fb_attachments fb) \<and> fb_renderPass fb = pass"
  by (auto simp add: CreateVKFramebuffer_def Let_def split: option.splits if_splits)

text \<open>
  C1. Whenever \<^verbatim>\<open>CreateVKFramebuffer\<close> builds its attachment list (no attachment texture
  is null), the list has the length of the attachment description list
  \<^verbatim>\<open>CreateVKRenderPass\<close> builds, and both follow the attachment order: every colour attachment in slot order, each immediately followed by
  its resolve attachment if present, then depth, then stencil. At every index, the image
  view is the view of the texture of that entry of the order, and the description is the
  one derived for that entry, from the layouts tracked when that entry is reached.
\<close>

theorem framebuffer_matches_render_pass:
  assumes "CreateVKFramebuffer_attachments rt = Some views"
  shows "length views = length (rp_attachments (fst (CreateVKRenderPass_desc final rt s)))
       \<and> length views = length (attachment_order rt)
       \<and> (\<forall>i<length views. \<exists>a p tex.
             attachment_order rt ! i = (a, p)
           \<and> member_ptr a p = Some tex
           \<and> views ! i = GetImageView tex
           \<and> rp_attachments (fst (CreateVKRenderPass_desc final rt s)) ! i =
               CreateAttachmentDescription final
                 (snd (describe_in_order final s (take i (attachment_order rt)))) a p)"
proof -
  from framebuffer_attachments_views [OF assms]
  have v: "map Some views = map view_of (attachment_order rt)" .
  then have len: "length views = length (attachment_order rt)"
    by (metis length_map)
  have atts: "rp_attachments (fst (CreateVKRenderPass_desc final rt s))
      = fst (describe_in_order final s (attachment_order rt))"
    by (simp add: render_pass_desc_attachments)
  have "\<exists>a p tex.
             attachment_order rt ! i = (a, p)
           \<and> member_ptr a p = Some tex
           \<and> views ! i = GetImageView tex
           \<and> rp_attachments (fst (CreateVKRenderPass_desc final rt s)) ! i =
               CreateAttachmentDescription final
                 (snd (describe_in_order final s (take i (attachment_order rt)))) a p"
    if i: "i < length views" for i
  proof -
    obtain a p where ap: "attachment_order rt ! i = (a, p)"
      by (cases "attachment_order rt ! i")
    from v i len have "Some (views ! i) = view_of (attachment_order rt ! i)"
      by (metis nth_map)
    with ap obtain tex where t: "member_ptr a p = Some tex" "views ! i = GetImageView tex"
      by (cases "member_ptr a p") (auto simp add: view_of_def)
    from i len have "i < length (attachment_order rt)" by simp
    from describe_in_order_nth [OF this, of final s] ap atts
    have "rp_attachments (fst (CreateVKRenderPass_desc final rt s)) ! i =
               CreateAttachmentDescription final
                 (snd (describe_in_order final s (take i (attachment_order rt)))) a p"
      by simp
    with ap t show ?thesis by blast
  qed
  with len atts show ?thesis by (simp add: length_describe_in_order)
qed

text \<open>
  C5. For a render target whose colour attachments are listed in map order, the colour
  reference array \<^verbatim>\<open>CreateVKRenderPass\<close> builds has length maximum colour bind index plus
  one; every index that is not a
  populated slot holds the unused reference; and the populated slot \<open>i\<close> holds, at index
  \<open>i\<close>, the reference with the colour layout to the position its own description has in
  the attachment list, which is the number of descriptions of the slots before it: gaps
  stay unused, slots are not renumbered.
\<close>

theorem color_refs_keep_slots:
  assumes "map_ordered (GetColorAttachments rt)"
  shows "length (rp_color_refs (fst (CreateVKRenderPass_desc final rt s)))
           = GetMaxColorAttacmentBindIndex rt + 1
       \<and> (\<forall>i<length (rp_color_refs (fst (CreateVKRenderPass_desc final rt s))).
             i \<notin> fst ` set (GetColorAttachments rt) \<longrightarrow>
             rp_color_refs (fst (CreateVKRenderPass_desc final rt s)) ! i = kUnusedAttachmentReference)
       \<and> (\<forall>j<length (GetColorAttachments rt).
             fst (GetColorAttachments rt ! j) < length (rp_color_refs (fst (CreateVKRenderPass_desc final rt s)))
           \<and> rp_color_refs (fst (CreateVKRenderPass_desc final rt s)) ! fst (GetColorAttachments rt ! j)
               = \<lparr>ref_attachment = of_nat (length (color_order (take j (GetColorAttachments rt)))),
                  ref_layout = eColorAttachmentOptimal\<rparr>
           \<and> length (color_order (take j (GetColorAttachments rt)))
               < length (rp_attachments (fst (CreateVKRenderPass_desc final rt s)))
           \<and> attachment_order rt ! length (color_order (take j (GetColorAttachments rt)))
               = (snd (GetColorAttachments rt ! j), Ptr_texture)
           \<and> rp_attachments (fst (CreateVKRenderPass_desc final rt s))
                 ! length (color_order (take j (GetColorAttachments rt)))
               = CreateAttachmentDescription final
                   (snd (describe_in_order final s
                      (take (length (color_order (take j (GetColorAttachments rt))))
                         (attachment_order rt))))
                   (snd (GetColorAttachments rt ! j)) Ptr_texture)"
proof -
  let ?cs = "GetColorAttachments rt"
  let ?n = "GetMaxColorAttacmentBindIndex rt + 1"
  let ?refs = "rp_color_refs (fst (CreateVKRenderPass_desc final rt s))"
  let ?atts = "rp_attachments (fst (CreateVKRenderPass_desc final rt s))"
  have len: "length ?refs = ?n"
    by (simp add: render_pass_desc_color_refs color_loop_refs_length)
  have unused: "?refs ! i = kUnusedAttachmentReference"
    if "i < length ?refs" "i \<notin> fst ` set ?cs" for i
  proof -
    from that(2) have "?refs ! i = replicate ?n kUnusedAttachmentReference ! i"
      unfolding render_pass_desc_color_refs by (rule color_loop_refs_untouched)
    moreover from that(1) len have "i < ?n" by simp
    ultimately show ?thesis by (simp only: nth_replicate)
  qed
  from assms have dist: "distinct (map fst ?cs)"
    by (simp add: map_ordered_def strict_sorted_iff)
  have atts: "?atts = fst (describe_in_order final s (attachment_order rt))"
    by (simp add: render_pass_desc_attachments)
  have populated:
    "fst (?cs ! j) < length ?refs
     \<and> ?refs ! fst (?cs ! j)
         = \<lparr>ref_attachment = of_nat (length (color_order (take j ?cs))),
            ref_layout = eColorAttachmentOptimal\<rparr>
     \<and> length (color_order (take j ?cs)) < length ?atts
     \<and> attachment_order rt ! length (color_order (take j ?cs)) = (snd (?cs ! j), Ptr_texture)
     \<and> ?atts ! length (color_order (take j ?cs))
         = CreateAttachmentDescription final
             (snd (describe_in_order final s
                (take (length (color_order (take j ?cs))) (attachment_order rt))))
             (snd (?cs ! j)) Ptr_texture"
    if j: "j < length ?cs" for j
  proof -
    from j have "fst (?cs ! j) \<in> fst ` set ?cs" by simp
    from bind_point_in_range [OF this] have r: "fst (?cs ! j) < ?n" .
    then have r': "fst (?cs ! j) < length (replicate ?n kUnusedAttachmentReference)" by simp
    from color_loop_ref_nth [OF dist j r', of final "[]"]
    have ref: "?refs ! fst (?cs ! j)
         = \<lparr>ref_attachment = of_nat (length (color_order (take j ?cs))),
            ref_layout = eColorAttachmentOptimal\<rparr>"
      by (simp add: render_pass_desc_color_refs)
    from color_order_nth_texture [OF j]
    have k: "length (color_order (take j ?cs)) < length (color_order ?cs)"
      and kth: "color_order ?cs ! length (color_order (take j ?cs)) = (snd (?cs ! j), Ptr_texture)"
      by simp_all
    from k have k': "length (color_order (take j ?cs)) < length (attachment_order rt)"
      by (simp add: attachment_order_def)
    from k kth have ord: "attachment_order rt ! length (color_order (take j ?cs))
        = (snd (?cs ! j), Ptr_texture)"
      by (simp add: attachment_order_def nth_append)
    from describe_in_order_nth [OF k', of final s] ord atts
    have d: "?atts ! length (color_order (take j ?cs))
         = CreateAttachmentDescription final
             (snd (describe_in_order final s
                (take (length (color_order (take j ?cs))) (attachment_order rt))))
             (snd (?cs ! j)) Ptr_texture"
      by simp
    from r len ref k' ord d atts show ?thesis by (simp add: length_describe_in_order)
  qed
  from len unused populated show ?thesis by blast
qed

text \<open>
  C10. When the render target has both a depth and a stencil attachment,
  \<^verbatim>\<open>CreateVKRenderPass\<close> appends both descriptions to the attachment list, depth first
  and stencil last, and the depth-stencil reference of the subpass is the reference to the
  index of the stencil description: the stencil reference overwrites the depth reference.
\<close>

theorem depth_stencil_ref_is_stencil:
  assumes "GetDepthAttachment rt = Some depth" and "GetStencilAttachment rt = Some stencil"
  shows "length (rp_attachments (fst (CreateVKRenderPass_desc final rt s)))
           = length (color_order (GetColorAttachments rt)) + 2
       \<and> attachment_order rt ! length (color_order (GetColorAttachments rt)) = (depth, Ptr_texture)
       \<and> attachment_order rt ! (length (color_order (GetColorAttachments rt)) + 1)
           = (stencil, Ptr_texture)
       \<and> rp_depth_stencil_ref (fst (CreateVKRenderPass_desc final rt s))
           = \<lparr>ref_attachment = of_nat (length (color_order (GetColorAttachments rt)) + 1),
              ref_layout = eDepthStencilAttachmentOptimal\<rparr>
       \<and> rp_attachments (fst (CreateVKRenderPass_desc final rt s))
             ! (length (color_order (GetColorAttachments rt)) + 1)
           = CreateAttachmentDescription final
               (snd (describe_in_order final s
                  (take (length (color_order (GetColorAttachments rt)) + 1) (attachment_order rt))))
               stencil Ptr_texture
       \<and> rp_attachments (fst (CreateVKRenderPass_desc final rt s))
             ! length (color_order (GetColorAttachments rt))
           = CreateAttachmentDescription final
               (snd (describe_in_order final s
                  (take (length (color_order (GetColorAttachments rt))) (attachment_order rt))))
               depth Ptr_texture"
proof -
  let ?n = "length (color_order (GetColorAttachments rt))"
  have ord: "attachment_order rt
      = color_order (GetColorAttachments rt) @ [(depth, Ptr_texture), (stencil, Ptr_texture)]"
    using assms by (simp add: attachment_order_def)
  have atts: "rp_attachments (fst (CreateVKRenderPass_desc final rt s))
      = fst (describe_in_order final s (attachment_order rt))"
    by (simp add: render_pass_desc_attachments)
  have len: "length (rp_attachments (fst (CreateVKRenderPass_desc final rt s))) = ?n + 2"
    by (simp add: atts length_describe_in_order ord)
  have o1: "attachment_order rt ! ?n = (depth, Ptr_texture)"
    and o2: "attachment_order rt ! (?n + 1) = (stencil, Ptr_texture)"
    by (simp_all add: ord nth_append)
  obtain a1 crefs rrefs s1 where loop:
    "color_attachments_loop final (GetColorAttachments rt)
       ([], replicate (GetMaxColorAttacmentBindIndex rt + 1) kUnusedAttachmentReference,
        replicate (GetMaxColorAttacmentBindIndex rt + 1) kUnusedAttachmentReference, s)
     = (a1, crefs, rrefs, s1)"
    by (metis prod_cases4)
  from color_loop_attachments [OF loop]
  have a1: "length a1 = ?n" by (simp add: length_describe_in_order)
  have ref: "rp_depth_stencil_ref (fst (CreateVKRenderPass_desc final rt s))
           = \<lparr>ref_attachment = of_nat (?n + 1), ref_layout = eDepthStencilAttachmentOptimal\<rparr>"
    using assms loop a1 by (simp add: CreateVKRenderPass_desc_def Let_def)
  have l1: "?n + 1 < length (attachment_order rt)" and l0: "?n < length (attachment_order rt)"
    by (simp_all add: ord)
  from describe_in_order_nth [OF l1, of final s] describe_in_order_nth [OF l0, of final s]
    o1 o2 atts len ref
  show ?thesis by simp
qed

lemmas ex_defs = ex_target_def ex_color_def ex_color2_def ex_depth_def ex_stencil_def
  ex_tex_color_def ex_tex_resolve_def ex_tex_present_def ex_tex_depth_stencil_def ex_state_def

lemmas rt_defs = GetColorAttachments_def GetDepthAttachment_def GetStencilAttachment_def
  GetMaxColorAttacmentBindIndex_def GetRenderTargetSize_def

lemma ex_fb: "CreateVKFramebuffer_attachments ex_target = Some [1, 2, 4, 5, 5]"
  by (simp add: CreateVKFramebuffer_attachments_def rt_defs ex_defs GetImageView_def)

lemma ex_order: "attachment_order ex_target =
   [(ex_color, Ptr_texture), (ex_color, Ptr_resolve_texture), (ex_color2, Ptr_texture),
    (ex_depth, Ptr_texture), (ex_stencil, Ptr_texture)]"
  by (simp add: attachment_order_def color_order_def rt_defs ex_target_def)
     (simp add: ex_color_def ex_color2_def)

theorem framebuffer_matches_render_pass_witness:
  "CreateVKFramebuffer_attachments ex_target = Some [1, 2, 4, 5, 5]
   \<and> length (rp_attachments (fst (CreateVKRenderPass_desc eGeneral ex_target ex_state))) = 5
   \<and> length (attachment_order ex_target) = 5"
proof -
  from framebuffer_matches_render_pass [OF ex_fb, of eGeneral ex_state]
  have "length [1, 2, 4, 5, 5 :: nat]
          = length (rp_attachments (fst (CreateVKRenderPass_desc eGeneral ex_target ex_state)))"
    and "length [1, 2, 4, 5, 5 :: nat] = length (attachment_order ex_target)"
    by blast+
  with ex_fb show ?thesis by simp
qed

lemma ex_ordered: "map_ordered (GetColorAttachments ex_target)"
  by (simp add: map_ordered_def rt_defs ex_target_def)

lemma ex_desc_refs:
  "rp_color_refs (fst (CreateVKRenderPass_desc eGeneral ex_target ex_state)) =
     [\<lparr>ref_attachment = 0, ref_layout = eColorAttachmentOptimal\<rparr>,
      kUnusedAttachmentReference,
      \<lparr>ref_attachment = 2, ref_layout = eColorAttachmentOptimal\<rparr>]"
  by (simp add: CreateVKRenderPass_desc_def rt_defs ex_target_def Let_def)
     (simp add: ex_color_def ex_color2_def eval_nat_numeral)

theorem color_refs_keep_slots_witness:
  "map_ordered (GetColorAttachments ex_target)
   \<and> GetMaxColorAttacmentBindIndex ex_target = 2
   \<and> length (rp_color_refs (fst (CreateVKRenderPass_desc eGeneral ex_target ex_state))) = 3
   \<and> rp_color_refs (fst (CreateVKRenderPass_desc eGeneral ex_target ex_state)) ! 1
       = kUnusedAttachmentReference
   \<and> rp_color_refs (fst (CreateVKRenderPass_desc eGeneral ex_target ex_state)) ! 2
       = \<lparr>ref_attachment = 2, ref_layout = eColorAttachmentOptimal\<rparr>"
proof -
  have m: "GetMaxColorAttacmentBindIndex ex_target = 2"
    by (simp add: rt_defs ex_target_def)
  have c: "GetColorAttachments ex_target = [(0, ex_color), (2, ex_color2)]"
    by (simp add: rt_defs ex_target_def)
  have o: "length (color_order [(0, ex_color)]) = 2"
    by (simp add: color_order_def ex_color_def)
  note t = color_refs_keep_slots [OF ex_ordered, of eGeneral ex_state]
  from t m have l: "length (rp_color_refs (fst (CreateVKRenderPass_desc eGeneral ex_target ex_state))) = 3"
    by simp
  from t have "\<forall>i<length (rp_color_refs (fst (CreateVKRenderPass_desc eGeneral ex_target ex_state))).
             i \<notin> fst ` set (GetColorAttachments ex_target) \<longrightarrow>
             rp_color_refs (fst (CreateVKRenderPass_desc eGeneral ex_target ex_state)) ! i
               = kUnusedAttachmentReference"
    by blast
  with l c have u: "rp_color_refs (fst (CreateVKRenderPass_desc eGeneral ex_target ex_state)) ! 1
       = kUnusedAttachmentReference"
    by simp
  from t have "\<forall>j<length (GetColorAttachments ex_target).
      rp_color_refs (fst (CreateVKRenderPass_desc eGeneral ex_target ex_state))
          ! fst (GetColorAttachments ex_target ! j)
        = \<lparr>ref_attachment = of_nat (length (color_order (take j (GetColorAttachments ex_target)))),
           ref_layout = eColorAttachmentOptimal\<rparr>"
    by blast
  from this [rule_format, of 1]
  have "rp_color_refs (fst (CreateVKRenderPass_desc eGeneral ex_target ex_state))
          ! fst (GetColorAttachments ex_target ! 1)
        = \<lparr>ref_attachment = of_nat (length (color_order (take 1 (GetColorAttachments ex_target)))),
           ref_layout = eColorAttachmentOptimal\<rparr>"
    by (simp add: c)
  then have p: "rp_color_refs (fst (CreateVKRenderPass_desc eGeneral ex_target ex_state)) ! 2
       = \<lparr>ref_attachment = 2, ref_layout = eColorAttachmentOptimal\<rparr>"
    by (simp add: c o)
  from ex_ordered m l u p show ?thesis by simp
qed

lemma ex_colors: "GetColorAttachments ex_target = [(0, ex_color), (2, ex_color2)]"
  by (simp add: rt_defs ex_target_def)

theorem depth_stencil_ref_is_stencil_witness:
  "GetDepthAttachment ex_target = Some ex_depth
   \<and> GetStencilAttachment ex_target = Some ex_stencil
   \<and> length (rp_attachments (fst (CreateVKRenderPass_desc eGeneral ex_target ex_state))) = 5
   \<and> attachment_order ex_target ! 4 = (ex_stencil, Ptr_texture)
   \<and> rp_depth_stencil_ref (fst (CreateVKRenderPass_desc eGeneral ex_target ex_state))
       = \<lparr>ref_attachment = 4, ref_layout = eDepthStencilAttachmentOptimal\<rparr>"
proof -
  have d: "GetDepthAttachment ex_target = Some ex_depth"
    and s: "GetStencilAttachment ex_target = Some ex_stencil"
    by (simp_all add: rt_defs ex_target_def)
  have n: "length (color_order (GetColorAttachments ex_target)) = 3"
    by (simp add: ex_colors color_order_def ex_color_def ex_color2_def)
  from depth_stencil_ref_is_stencil [OF d s, of eGeneral ex_state] d s
  show ?thesis by (simp add: n)
qed

section \<open>Properties of the encoding\<close>

lemma recorded_record_cmd: "recorded (record_cmd s c) = recorded s @ [c]"
  by (simp add: record_cmd_def)

lemma layouts_record_cmd: "layouts (record_cmd s c) = layouts s"
  by (simp add: record_cmd_def)

lemma SetViewportAndScissor_closed:
  "SetViewportAndScissor s command tgt =
     s\<lparr>recorded := recorded s @ recorded (SetViewportAndScissor no_state command tgt)\<rparr>"
  by (simp add: SetViewportAndScissor_def record_cmd_def Let_def no_state_def)

lemma EncodeCommand_body_closed:
  "EncodeCommand_body env s command tgt d =
     (fst (EncodeCommand_body env no_state command \<lparr>size_width = 0, size_height = 0\<rparr> 0),
      s\<lparr>recorded := recorded s @ recorded (snd (EncodeCommand_body env no_state command tgt d))\<rparr>)"
  by (simp add: EncodeCommand_body_def SetViewportAndScissor_def record_cmd_def Let_def no_state_def
      split: option.splits)

lemma EncodeCommand_closed:
  "EncodeCommand env s command tgt d =
     (encodes env command, s\<lparr>recorded := recorded s @ encoded env tgt command d\<rparr>)"
proof -
  note b = EncodeCommand_body_closed
  show ?thesis
    unfolding encodes_def encoded_def EncodeCommand_def
    by (subst (1 2 3) b) (simp add: Let_def case_prod_beta record_cmd_def no_state_def)
qed

lemma encodes_cases:
  "encodes env c \<longleftrightarrow>
     (\<exists>b vh. bv_buffer (vb_vertex_buffer (vertex_buffer c)) = Some b
        \<and> GetDeviceBuffer env b = Some vh \<and> Track env (Tracked_Buffer vh)
        \<and> (vb_index_type (vertex_buffer c) = Index_kNone
            \<or> (\<exists>ib ih. bv_buffer (vb_index_buffer (vertex_buffer c)) = Some ib
                  \<and> GetDeviceBuffer env ib = Some ih \<and> Track env (Tracked_Buffer ih))))"
  by (simp add: encodes_def EncodeCommand_def EncodeCommand_body_def Let_def case_prod_beta
      split: option.splits)

lemma body_events_prefix:
  "\<exists>tail. recorded (snd (EncodeCommand_body env no_state command tgt d))
      = header_events tgt command d @ tail
    \<and> (tail = []
       \<or> (\<exists>vh off. tail = [BindVertexBuffers vh off])
       \<or> (\<exists>vh off. tail = [BindVertexBuffers vh off, draw_call command]
            \<and> vb_index_type (vertex_buffer command) = Index_kNone)
       \<or> (\<exists>vh off ih ioff. tail = [BindVertexBuffers vh off,
              BindIndexBuffer ih ioff (vb_index_type (vertex_buffer command)), draw_call command]
            \<and> vb_index_type (vertex_buffer command) \<noteq> Index_kNone))
    \<and> (fst (EncodeCommand_body env no_state command tgt d) \<longleftrightarrow> draw_call command \<in> set tail)"
  by (simp add: EncodeCommand_body_def header_events_def SetViewportAndScissor_def record_cmd_def
      no_state_def Let_def draw_call_def split: option.splits)

lemma encoded_eq:
  "encoded env tgt command d =
     command_push env command
     @ recorded (snd (EncodeCommand_body env no_state command tgt d))
     @ command_pop env command"
  unfolding encoded_def EncodeCommand_def
  by (subst EncodeCommand_body_closed)
     (simp add: Let_def case_prod_beta record_cmd_def no_state_def command_push_def command_pop_def)

lemma encodes_eq:
  "encodes env command = fst (EncodeCommand_body env no_state command tgt d)"
  unfolding encodes_def EncodeCommand_def
  by (subst (1 2) EncodeCommand_body_closed) (simp add: Let_def case_prod_beta)

lemma header_filter:
  "filter (\<lambda>c. is_bind_sets c \<or> is_draw c) (header_events tgt command d)
     = [BindDescriptorSets (GetPipelineLayout (pipeline command)) d]"
  by (simp add: header_events_def SetViewportAndScissor_def record_cmd_def no_state_def Let_def
      is_bind_sets_def is_draw_def)


lemma draw_call_is_draw: "is_draw (draw_call command) \<and> \<not> is_bind_sets (draw_call command)
    \<and> \<not> is_begin (draw_call command)"
  by (simp add: draw_call_def is_draw_def is_bind_sets_def is_begin_def)

lemma bind_buffers_kind:
  "\<not> is_draw (BindVertexBuffers vh off)" "\<not> is_bind_sets (BindVertexBuffers vh off)"
  "\<not> is_begin (BindVertexBuffers vh off)"
  "\<not> is_draw (BindIndexBuffer ih ioff ty)" "\<not> is_bind_sets (BindIndexBuffer ih ioff ty)"
  "\<not> is_begin (BindIndexBuffer ih ioff ty)"
  by (simp_all add: is_draw_def is_bind_sets_def is_begin_def)

lemma encoded_binds_and_draws:
  assumes "encodes env command"
  shows "filter (\<lambda>c. is_bind_sets c \<or> is_draw c) (encoded env tgt command d)
       = [BindDescriptorSets (GetPipelineLayout (pipeline command)) d, draw_call command]"
proof -
  from body_events_prefix [of env command tgt d]
  obtain tail where t: "recorded (snd (EncodeCommand_body env no_state command tgt d))
      = header_events tgt command d @ tail"
    and c: "tail = []
       \<or> (\<exists>vh off. tail = [BindVertexBuffers vh off])
       \<or> (\<exists>vh off. tail = [BindVertexBuffers vh off, draw_call command]
            \<and> vb_index_type (vertex_buffer command) = Index_kNone)
       \<or> (\<exists>vh off ih ioff. tail = [BindVertexBuffers vh off,
              BindIndexBuffer ih ioff (vb_index_type (vertex_buffer command)), draw_call command]
            \<and> vb_index_type (vertex_buffer command) \<noteq> Index_kNone)"
    and ok: "fst (EncodeCommand_body env no_state command tgt d) \<longleftrightarrow> draw_call command \<in> set tail"
    by blast
  from assms ok have d: "draw_call command \<in> set tail"
    by (simp add: encodes_eq [of env command tgt d])
  have nd: "draw_call command \<noteq> BindVertexBuffers vh off" for vh off
    by (simp add: draw_call_def)
  from c d nd have "filter (\<lambda>c. is_bind_sets c \<or> is_draw c) tail = [draw_call command]"
    by (auto simp add: draw_call_is_draw bind_buffers_kind)
  moreover have "filter (\<lambda>c. is_bind_sets c \<or> is_draw c) (command_push env command) = []"
    and "filter (\<lambda>c. is_bind_sets c \<or> is_draw c) (command_pop env command) = []"
    by (simp_all add: command_push_def command_pop_def is_bind_sets_def is_draw_def)
  ultimately show ?thesis
    by (simp add: encoded_eq t header_filter)
qed


lemma unusable_not_encodes: "unusable_buffers env c \<Longrightarrow> \<not> encodes env c"
  by (auto simp add: unusable_buffers_def encodes_cases split: option.splits)

lemma loop_events_0: "loop_events env tgt cmds ds idx 0 = []"
  by (simp add: loop_events_def)

lemma loop_events_Suc:
  "loop_events env tgt (c # cs) ds idx (Suc m) =
     encoded env tgt c (ds ! unat idx) @ loop_events env tgt cs ds (idx + 1) m"
proof -
  have "[0..<Suc m] = 0 # map Suc [0..<m]"
    by (metis map_Suc_upt upt_conv_Cons zero_less_Suc)
  then show ?thesis
    by (simp add: loop_events_def o_def add.assoc del: upt_Suc)
qed

lemma encoded_count_Nil: "encoded_count env [] = 0"
  by (simp add: encoded_count_def)

lemma encoded_count_Cons:
  "encoded_count env (c # cs) = (if encodes env c then Suc (encoded_count env cs) else 1)"
  by (simp add: encoded_count_def)

lemma encode_commands_loop_closed:
  "encode_commands_loop env s cmds tgt ds idx =
     (list_all (encodes env) cmds,
      s\<lparr>recorded := recorded s @ loop_events env tgt cmds ds idx (encoded_count env cmds)\<rparr>)"
proof (induction cmds arbitrary: s idx)
  case Nil
  then show ?case by (simp add: loop_events_0 encoded_count_Nil)
next
  case (Cons c cs)
  show ?case
  proof (cases "encodes env c")
    case True
    then show ?thesis
      by (simp add: EncodeCommand_closed Cons.IH encoded_count_Cons loop_events_Suc)
  next
    case False
    then show ?thesis
      by (simp add: EncodeCommand_closed encoded_count_Cons loop_events_Suc loop_events_0
          del: One_nat_def) (simp add: loop_events_Suc loop_events_0)
  qed
qed

lemma encoded_count_le_unusable:
  assumes "k < length cmds" and "\<not> encodes env (cmds ! k)"
  shows "encoded_count env cmds \<le> Suc k"
proof -
  have "length (takeWhile (encodes env) cmds) \<le> k"
  proof (rule ccontr)
    assume "\<not> length (takeWhile (encodes env) cmds) \<le> k"
    then have lt: "k < length (takeWhile (encodes env) cmds)" by simp
    then have "takeWhile (encodes env) cmds ! k = cmds ! k" by (rule takeWhile_nth)
    moreover from lt have "takeWhile (encodes env) cmds ! k \<in> set (takeWhile (encodes env) cmds)"
      by simp
    ultimately have "encodes env (cmds ! k)" by (metis set_takeWhileD)
    with assms(2) show False by simp
  qed
  then show ?thesis by (simp add: encoded_count_def)
qed

lemma encoded_count_all: "list_all (encodes env) cmds \<Longrightarrow> encoded_count env cmds = length cmds"
  by (induction cmds) (simp_all add: encoded_count_Nil encoded_count_Cons)


lemma SetLayout_has_layout:
  "has_layout (snd (SetLayout s t b)) u = has_layout s u"
  by (simp add: SetLayout_def has_layout_def split: option.splits)

lemma images_closed:
  "UpdateBindingLayouts_images s imgs = (ok, s') \<Longrightarrow>
     (ok \<longleftrightarrow> list_all (has_layout s) (map snd imgs))
     \<and> (\<forall>u. has_layout s' u = has_layout s u)
     \<and> (\<exists>bs. recorded s' = recorded s @ bs \<and> (\<forall>c\<in>set bs. is_barrier c)
            \<and> (ok \<longrightarrow> bs = map shader_read_transition (map snd imgs)))"
proof (induction imgs arbitrary: s)
  case Nil
  then show ?case by auto
next
  case (Cons i imgs)
  obtain k t where i: "i = (k, t)" by (cases i)
  show ?case
  proof (cases "layouts s (tex_id t)")
    case None
    with Cons.prems i show ?thesis
      by (auto simp add: SetLayout_def has_layout_def)
  next
    case (Some l)
    let ?s1 = "s\<lparr>layouts := (layouts s)(tex_id t \<mapsto> new_layout binding_barrier),
                   recorded := recorded s @ [PipelineBarrier (tex_id t) binding_barrier]\<rparr>"
    from Some Cons.prems i have "UpdateBindingLayouts_images ?s1 imgs = (ok, s')"
      by (simp add: SetLayout_def)
    from Cons.IH [OF this]
    have a: "ok \<longleftrightarrow> list_all (has_layout ?s1) (map snd imgs)"
      and b: "\<forall>u. has_layout s' u = has_layout ?s1 u"
      and c: "\<exists>bs. recorded s' = recorded ?s1 @ bs \<and> (\<forall>c\<in>set bs. is_barrier c)
            \<and> (ok \<longrightarrow> bs = map shader_read_transition (map snd imgs))"
      by blast+
    have h: "has_layout ?s1 u = has_layout s u" for u
      using Some by (simp add: has_layout_def)
    from c obtain bs where bs: "recorded s' = recorded ?s1 @ bs" "\<forall>c\<in>set bs. is_barrier c"
      "ok \<longrightarrow> bs = map shader_read_transition (map snd imgs)" by blast
    have t: "has_layout s t" using Some by (simp add: has_layout_def)
    from bs have "recorded s' = recorded s @ (PipelineBarrier (tex_id t) binding_barrier # bs)
        \<and> (\<forall>c\<in>set (PipelineBarrier (tex_id t) binding_barrier # bs). is_barrier c)
        \<and> (ok \<longrightarrow> PipelineBarrier (tex_id t) binding_barrier # bs
              = map shader_read_transition (map snd (i # imgs)))"
      by (simp add: is_barrier_def i shader_read_transition_def)
    then have "\<exists>bs. recorded s' = recorded s @ bs \<and> (\<forall>c\<in>set bs. is_barrier c)
            \<and> (ok \<longrightarrow> bs = map shader_read_transition (map snd (i # imgs)))"
      by (rule exI)
    with a b h t show ?thesis by (simp add: i list_all_iff)
  qed
qed

lemma command_closed:
  assumes "UpdateBindingLayouts_command s command = (ok, s')"
  shows "(ok \<longleftrightarrow> list_all (has_layout s) (sampled_textures [command]))
     \<and> (\<forall>u. has_layout s' u = has_layout s u)
     \<and> (\<exists>bs. recorded s' = recorded s @ bs \<and> (\<forall>c\<in>set bs. is_barrier c)
            \<and> (ok \<longrightarrow> bs = map shader_read_transition (sampled_textures [command])))"
proof -
  obtain ok1 s1 where v: "UpdateBindingLayouts_images s (sampled_images (vertex_bindings command)) = (ok1, s1)"
    by (cases "UpdateBindingLayouts_images s (sampled_images (vertex_bindings command))")
  note V = images_closed [OF v]
  show ?thesis
  proof (cases ok1)
    case False
    with assms v have "ok = False" "s' = s1"
      by (simp_all add: UpdateBindingLayouts_command_def UpdateBindingLayouts_bindings_def)
    with V False show ?thesis by (auto simp add: sampled_textures_def)
  next
    case True
    with assms v have f: "UpdateBindingLayouts_images s1 (sampled_images (fragment_bindings command)) = (ok, s')"
      by (simp add: UpdateBindingLayouts_command_def UpdateBindingLayouts_bindings_def)
    note F = images_closed [OF f]
    from V True have v1: "list_all (has_layout s) (map snd (sampled_images (vertex_bindings command)))"
      and v2: "\<forall>u. has_layout s1 u = has_layout s u"
      and v3: "recorded s1 = recorded s @ map shader_read_transition (map snd (sampled_images (vertex_bindings command)))"
      by auto
    from F obtain bs where bs: "recorded s' = recorded s1 @ bs" "\<forall>c\<in>set bs. is_barrier c"
      "ok \<longrightarrow> bs = map shader_read_transition (map snd (sampled_images (fragment_bindings command)))"
      by blast
    from F v2 have a: "ok \<longleftrightarrow> list_all (has_layout s) (map snd (sampled_images (fragment_bindings command)))"
      and b: "\<forall>u. has_layout s' u = has_layout s u"
      by (simp_all add: list_all_iff)
    have nb: "\<forall>c\<in>set (map shader_read_transition (map snd (sampled_images (vertex_bindings command))) @ bs). is_barrier c"
      using bs(2) by (auto simp add: shader_read_transition_def is_barrier_def)
    from bs v3 have r: "recorded s' = recorded s @ (map shader_read_transition (map snd (sampled_images (vertex_bindings command))) @ bs)"
      by simp
    from bs(3) have e: "ok \<longrightarrow> map shader_read_transition (map snd (sampled_images (vertex_bindings command))) @ bs
        = map shader_read_transition (sampled_textures [command])"
      by (simp add: sampled_textures_def)
    from r nb e have "\<exists>bs. recorded s' = recorded s @ bs \<and> (\<forall>c\<in>set bs. is_barrier c)
            \<and> (ok \<longrightarrow> bs = map shader_read_transition (sampled_textures [command]))"
      by blast
    with a b v1 show ?thesis by (simp add: sampled_textures_def)
  qed
qed

lemma sampled_textures_Cons:
  "sampled_textures (c # cs) = sampled_textures [c] @ sampled_textures cs"
  by (simp add: sampled_textures_def)

lemma commands_closed:
  "UpdateBindingLayouts s cmds = (ok, s') \<Longrightarrow>
     (ok \<longleftrightarrow> list_all (has_layout s) (sampled_textures cmds))
     \<and> (\<forall>u. has_layout s' u = has_layout s u)
     \<and> (\<exists>bs. recorded s' = recorded s @ bs \<and> (\<forall>c\<in>set bs. is_barrier c)
            \<and> (ok \<longrightarrow> bs = map shader_read_transition (sampled_textures cmds)))"
proof (induction cmds arbitrary: s)
  case Nil
  then show ?case by (auto simp add: sampled_textures_def)
next
  case (Cons c cmds)
  obtain ok1 s1 where c1: "UpdateBindingLayouts_command s c = (ok1, s1)"
    by (cases "UpdateBindingLayouts_command s c")
  note C = command_closed [OF c1]
  show ?case
  proof (cases ok1)
    case False
    with Cons.prems c1 have "ok = False" "s' = s1" by simp_all
    with C False show ?thesis by (subst sampled_textures_Cons) auto
  next
    case True
    with Cons.prems c1 have r: "UpdateBindingLayouts s1 cmds = (ok, s')" by simp
    note R = Cons.IH [OF r]
    from C True have v1: "list_all (has_layout s) (sampled_textures [c])"
      and v2: "\<forall>u. has_layout s1 u = has_layout s u"
      and v3: "recorded s1 = recorded s @ map shader_read_transition (sampled_textures [c])"
      by auto
    from R obtain bs where bs: "recorded s' = recorded s1 @ bs" "\<forall>c\<in>set bs. is_barrier c"
      "ok \<longrightarrow> bs = map shader_read_transition (sampled_textures cmds)"
      by blast
    from R v2 have a: "ok \<longleftrightarrow> list_all (has_layout s) (sampled_textures cmds)"
      and b: "\<forall>u. has_layout s' u = has_layout s u"
      by (simp_all add: list_all_iff)
    have nb: "\<forall>x\<in>set (map shader_read_transition (sampled_textures [c]) @ bs). is_barrier x"
      using bs(2) by (auto simp add: shader_read_transition_def is_barrier_def)
    from bs v3 have rr: "recorded s' = recorded s @ (map shader_read_transition (sampled_textures [c]) @ bs)"
      by simp
    from bs(3) have e: "ok \<longrightarrow> map shader_read_transition (sampled_textures [c]) @ bs
        = map shader_read_transition (sampled_textures (c # cmds))"
      by (subst sampled_textures_Cons) simp
    from rr nb e have "\<exists>bs. recorded s' = recorded s @ bs \<and> (\<forall>c\<in>set bs. is_barrier c)
            \<and> (ok \<longrightarrow> bs = map shader_read_transition (sampled_textures (c # cmds)))"
      by blast
    with a b v1 show ?thesis by (subst sampled_textures_Cons) simp
  qed
qed


lemma SetTextureLayout_recorded:
  "\<exists>bs. recorded (SetTextureLayout s a d p) = recorded s @ bs \<and> (\<forall>c\<in>set bs. is_barrier c)"
  by (auto simp add: SetTextureLayout_def SetLayout_def SetLayoutWithoutEncoding_def Let_def
      is_barrier_def split: option.splits)

lemma describe_in_order_recorded:
  "\<exists>bs. recorded (snd (describe_in_order final s xs)) = recorded s @ bs
        \<and> (\<forall>c\<in>set bs. is_barrier c)"
proof (induction xs arbitrary: s)
  case Nil
  then show ?case by simp
next
  case (Cons x xs)
  obtain a p where x: "x = (a, p)" by (cases x)
  let ?s1 = "SetTextureLayout s a (CreateAttachmentDescription final s a p) p"
  from SetTextureLayout_recorded [of s a "CreateAttachmentDescription final s a p" p]
  obtain b1 where b1: "recorded ?s1 = recorded s @ b1" "\<forall>c\<in>set b1. is_barrier c" by blast
  from Cons.IH [of ?s1]
  obtain b2 where b2: "recorded (snd (describe_in_order final ?s1 xs)) = recorded ?s1 @ b2"
    "\<forall>c\<in>set b2. is_barrier c" by blast
  from b1 b2 have "recorded (snd (describe_in_order final s (x # xs))) = recorded s @ (b1 @ b2)
      \<and> (\<forall>c\<in>set (b1 @ b2). is_barrier c)"
    by (auto simp add: x describe_in_order_Cons)
  then show ?case by (rule exI)
qed

lemma CreateVKRenderPass_recorded:
  "\<exists>bs. recorded (snd (CreateVKRenderPass env rt s)) = recorded s @ bs
        \<and> (\<forall>c\<in>set bs. is_barrier c)"
proof -
  have "snd (CreateVKRenderPass env rt s) = snd (CreateVKRenderPass_desc (final_layout env) rt s)"
    by (simp add: CreateVKRenderPass_def case_prod_beta)
  then show ?thesis
    using describe_in_order_recorded [of "final_layout env" s "attachment_order rt"]
    by (simp add: render_pass_desc_attachments)
qed

lemma AllocateAndBindDescriptorSets_length:
  "AllocateAndBindDescriptorSets env cmds = Some ds \<Longrightarrow> length ds = length cmds"
  by (auto simp add: AllocateAndBindDescriptorSets_def split: if_splits)

lemma desc_index_in_range:
  assumes "AllocateAndBindDescriptorSets env cmds = Some ds" and "i < length cmds"
  shows "unat (0 + word_of_nat i :: 32 word) < length ds"
proof -
  have "unat (word_of_nat i :: 32 word) \<le> i"
    by (simp add: unat_of_nat)
  with assms AllocateAndBindDescriptorSets_length [OF assms(1)] show ?thesis by simp
qed

lemma encode_pass_shape:
  assumes "encode_pass env pass s = Some (ok, s')"
  shows "\<exists>bars rest. recorded s' = recorded s @ bars @ rest
      \<and> (\<forall>c\<in>set bars. is_barrier c)
      \<and> (ok \<or> list_all (has_layout s) (sampled_textures (commands pass))
            \<longrightarrow> (\<exists>more. bars = map shader_read_transition (sampled_textures (commands pass)) @ more))
      \<and> ((\<not> ok \<and> rest = [])
          \<or> (\<exists>r f w h ds.
                AllocateAndBindDescriptorSets env (commands pass) = Some ds
              \<and> list_all (has_layout s) (sampled_textures (commands pass))
              \<and> ok = list_all (encodes env) (commands pass)
              \<and> rest = BeginRenderPass r f w h
                   # loop_events env (GetRenderTargetSize (render_target pass)) (commands pass) ds 0
                       (encoded_count env (commands pass))
                   @ [EndRenderPass]))"
proof -
  obtain ok1 s1 where u: "UpdateBindingLayouts s (commands pass) = (ok1, s1)"
    by (cases "UpdateBindingLayouts s (commands pass)")
  from commands_closed [OF u]
  obtain b1 where b1: "recorded s1 = recorded s @ b1" "\<forall>c\<in>set b1. is_barrier c"
    "ok1 \<longrightarrow> b1 = map shader_read_transition (sampled_textures (commands pass))"
    and ok1: "ok1 \<longleftrightarrow> list_all (has_layout s) (sampled_textures (commands pass))"
    by blast
  show ?thesis
  proof (cases ok1)
    case False
    with assms u have "ok = False" "s' = s1" by (simp_all add: encode_pass_def)
    with b1 ok1 False have "recorded s' = recorded s @ b1 @ []
      \<and> (\<forall>c\<in>set b1. is_barrier c)
      \<and> (ok \<or> list_all (has_layout s) (sampled_textures (commands pass))
            \<longrightarrow> (\<exists>more. b1 = map shader_read_transition (sampled_textures (commands pass)) @ more))
      \<and> ((\<not> ok \<and> [] = [])
          \<or> (\<exists>r f w h ds.
                AllocateAndBindDescriptorSets env (commands pass) = Some ds
              \<and> list_all (has_layout s) (sampled_textures (commands pass))
              \<and> ok = list_all (encodes env) (commands pass)
              \<and> [] = BeginRenderPass r f w h
                   # loop_events env (GetRenderTargetSize (render_target pass)) (commands pass) ds 0
                       (encoded_count env (commands pass))
                   @ [EndRenderPass]))"
      by simp
    then show ?thesis by blast
  next
    case True
    obtain rp s2 where c: "CreateVKRenderPass env (render_target pass) s1 = (rp, s2)"
      by (cases "CreateVKRenderPass env (render_target pass) s1")
    from CreateVKRenderPass_recorded [of env "render_target pass" s1] c
    obtain b2 where b2: "recorded s2 = recorded s1 @ b2" "\<forall>c\<in>set b2. is_barrier c" by auto
    from b1 b2 True have r2: "recorded s2 = recorded s @ (b1 @ b2)"
      and bb: "\<forall>c\<in>set (b1 @ b2). is_barrier c"
      and pre: "b1 @ b2 = map shader_read_transition (sampled_textures (commands pass)) @ b2"
      by auto
    have early: ?thesis if "ok = False" "s' = s2"
    proof -
      from that r2 bb pre have "recorded s' = recorded s @ (b1 @ b2) @ []
        \<and> (\<forall>c\<in>set (b1 @ b2). is_barrier c)
        \<and> (ok \<or> list_all (has_layout s) (sampled_textures (commands pass))
            \<longrightarrow> (\<exists>more. b1 @ b2 = map shader_read_transition (sampled_textures (commands pass)) @ more))
        \<and> ((\<not> ok \<and> [] = [])
          \<or> (\<exists>r f w h ds.
                AllocateAndBindDescriptorSets env (commands pass) = Some ds
              \<and> list_all (has_layout s) (sampled_textures (commands pass))
              \<and> ok = list_all (encodes env) (commands pass)
              \<and> [] = BeginRenderPass r f w h
                   # loop_events env (GetRenderTargetSize (render_target pass)) (commands pass) ds 0
                       (encoded_count env (commands pass))
                   @ [EndRenderPass]))"
        by simp
      then show ?thesis by blast
    qed
    show ?thesis
    proof (cases rp)
      case None
      with assms u c True have "ok = False" "s' = s2" by (simp_all add: encode_pass_def Let_def)
      then show ?thesis by (rule early)
    next
      case (Some render_pass)
      show ?thesis
      proof (cases "CreateVKFramebuffer env (render_target pass) render_pass")
        case None
        with assms u c True Some show ?thesis by (simp add: encode_pass_def Let_def)
      next
        case fb: (Some fbo)
        show ?thesis
        proof (cases fbo)
          case None
          with assms u c True Some fb have "ok = False" "s' = s2"
            by (simp_all add: encode_pass_def Let_def)
          then show ?thesis by (rule early)
        next
          case fbs: (Some framebuffer)
          show ?thesis
          proof (cases "\<not> Track env (Tracked_Framebuffer framebuffer)
                          \<or> \<not> Track env (Tracked_RenderPass render_pass)")
            case True
            with assms u c \<open>ok1\<close> Some fb fbs have "ok = False" "s' = s2"
              by (simp_all add: encode_pass_def Let_def)
            then show ?thesis by (rule early)
          next
            case tr: False
            show ?thesis
            proof (cases "AllocateAndBindDescriptorSets env (commands pass)")
              case None
              with assms u c \<open>ok1\<close> Some fb fbs tr have "ok = False" "s' = s2"
                by (simp_all add: encode_pass_def Let_def)
              then show ?thesis by (rule early)
            next
              case ds: (Some desc_sets)
              let ?tgt = "GetRenderTargetSize (render_target pass)"
              let ?begin = "BeginRenderPass render_pass framebuffer
                              (ucast (size_width ?tgt)) (ucast (size_height ?tgt))"
              let ?rest = "?begin # loop_events env ?tgt (commands pass) desc_sets 0
                              (encoded_count env (commands pass)) @ [EndRenderPass]"
              from assms u c \<open>ok1\<close> Some fb fbs tr ds
              have okv: "ok = list_all (encodes env) (commands pass)"
                and sv: "recorded s' = recorded s2 @ ?rest"
                by (auto simp add: encode_pass_def Let_def encode_commands_loop_closed record_cmd_def)
              from sv r2 have "recorded s' = recorded s @ (b1 @ b2) @ ?rest" by simp
              with bb pre okv ds ok1 \<open>ok1\<close>
              have "recorded s' = recorded s @ (b1 @ b2) @ ?rest
                \<and> (\<forall>c\<in>set (b1 @ b2). is_barrier c)
                \<and> (ok \<or> list_all (has_layout s) (sampled_textures (commands pass))
                    \<longrightarrow> (\<exists>more. b1 @ b2 = map shader_read_transition (sampled_textures (commands pass)) @ more))
                \<and> ((\<not> ok \<and> ?rest = [])
                  \<or> (\<exists>r f w h ds.
                        AllocateAndBindDescriptorSets env (commands pass) = Some ds
                      \<and> list_all (has_layout s) (sampled_textures (commands pass))
                      \<and> ok = list_all (encodes env) (commands pass)
                      \<and> ?rest = BeginRenderPass r f w h
                           # loop_events env (GetRenderTargetSize (render_target pass)) (commands pass) ds 0
                               (encoded_count env (commands pass))
                           @ [EndRenderPass]))"
                by auto
              then show ?thesis by blast
            qed
          qed
        qed
      qed
    qed
  qed
qed


lemma has_layout_record_cmd: "has_layout (record_cmd s c) = has_layout s"
  by (rule ext) (simp add: has_layout_def record_cmd_def)

lemma OnEncodeCommands_shape:
  assumes "OnEncodeCommands env pass s = Some (ok, s')"
  shows "\<exists>mark bars rest post. recorded s' = recorded s @ mark @ bars @ rest @ post
      \<and> (mark = [] \<or> mark = debug_push (debug_label pass))
      \<and> (post = [] \<or> post = debug_pop (debug_label pass))
      \<and> (ok \<longrightarrow> mark = debug_push (debug_label pass) \<and> post = debug_pop (debug_label pass))
      \<and> (\<forall>c\<in>set bars. is_barrier c)
      \<and> ((\<not> ok \<and> rest = [])
          \<or> (\<exists>r f w h ds more.
                AllocateAndBindDescriptorSets env (commands pass) = Some ds
              \<and> bars = map shader_read_transition (sampled_textures (commands pass)) @ more
              \<and> list_all (has_layout s) (sampled_textures (commands pass))
              \<and> ok = list_all (encodes env) (commands pass)
              \<and> mark = debug_push (debug_label pass) \<and> post = debug_pop (debug_label pass)
              \<and> rest = BeginRenderPass r f w h
                   # loop_events env (GetRenderTargetSize (render_target pass)) (commands pass) ds 0
                       (encoded_count env (commands pass))
                   @ [EndRenderPass]))"
proof (cases "is_valid pass \<and> (\<exists>cb. command_buffer pass = Some cb \<and> has_encoder cb)")
  case False
  with assms have "ok = False" "s' = s"
    by (auto simp add: OnEncodeCommands_def split: option.splits if_splits)
  then have "recorded s' = recorded s @ [] @ [] @ [] @ [] \<and> \<not> ok" by simp
  then show ?thesis by fastforce
next
  case True
  let ?l = "debug_label pass"
  let ?s1 = "if ?l \<noteq> [] then record_cmd s (PushDebugGroup ?l) else s"
  from True assms obtain s2 where e: "encode_pass env pass ?s1 = Some (ok, s2)"
    and s': "s' = (if ?l \<noteq> [] then record_cmd s2 PopDebugGroup else s2)"
    by (auto simp add: OnEncodeCommands_def Let_def split: option.splits)
  have r1: "recorded ?s1 = recorded s @ debug_push ?l"
    by (simp add: debug_push_def record_cmd_def)
  have h1: "has_layout ?s1 = has_layout s"
    by (simp add: has_layout_record_cmd)
  from s' have r': "recorded s' = recorded s2 @ debug_pop ?l"
    by (simp add: debug_pop_def record_cmd_def)
  from encode_pass_shape [OF e]
  obtain bars rest where sh: "recorded s2 = recorded ?s1 @ bars @ rest"
    "\<forall>c\<in>set bars. is_barrier c"
    "(\<not> ok \<and> rest = [])
          \<or> (\<exists>r f w h ds.
                AllocateAndBindDescriptorSets env (commands pass) = Some ds
              \<and> list_all (has_layout ?s1) (sampled_textures (commands pass))
              \<and> ok = list_all (encodes env) (commands pass)
              \<and> rest = BeginRenderPass r f w h
                   # loop_events env (GetRenderTargetSize (render_target pass)) (commands pass) ds 0
                       (encoded_count env (commands pass))
                   @ [EndRenderPass])"
    "ok \<or> list_all (has_layout ?s1) (sampled_textures (commands pass))
            \<longrightarrow> (\<exists>more. bars = map shader_read_transition (sampled_textures (commands pass)) @ more)"
    by blast
  from sh(1) r1 r' have rec: "recorded s' = recorded s @ debug_push ?l @ bars @ rest @ debug_pop ?l"
    by simp
  from sh(3)
  show ?thesis
  proof
    assume a: "\<not> ok \<and> rest = []"
    from rec sh(2) a show ?thesis by blast
  next
    assume "\<exists>r f w h ds.
                AllocateAndBindDescriptorSets env (commands pass) = Some ds
              \<and> list_all (has_layout ?s1) (sampled_textures (commands pass))
              \<and> ok = list_all (encodes env) (commands pass)
              \<and> rest = BeginRenderPass r f w h
                   # loop_events env (GetRenderTargetSize (render_target pass)) (commands pass) ds 0
                       (encoded_count env (commands pass))
                   @ [EndRenderPass]"
    then obtain r f w h ds where b:
      "AllocateAndBindDescriptorSets env (commands pass) = Some ds"
      "list_all (has_layout ?s1) (sampled_textures (commands pass))"
      "ok = list_all (encodes env) (commands pass)"
      "rest = BeginRenderPass r f w h
                   # loop_events env (GetRenderTargetSize (render_target pass)) (commands pass) ds 0
                       (encoded_count env (commands pass))
                   @ [EndRenderPass]"
      by blast
    from b(2) sh(4) obtain more where
      m: "bars = map shader_read_transition (sampled_textures (commands pass)) @ more" by blast
    from b(2) h1 have hl: "list_all (has_layout s) (sampled_textures (commands pass))" by simp
    from rec sh(2) b(1) b(3) b(4) m hl show ?thesis by blast
  qed
qed

lemma encode_pass_returns:
  "CreateVKFramebuffer_attachments (render_target pass) \<noteq> None \<Longrightarrow>
     \<exists>ok s'. encode_pass env pass s = Some (ok, s')"
  by (auto simp add: encode_pass_def CreateVKFramebuffer_def Let_def case_prod_beta
      split: prod.splits option.splits bool.splits)

lemma OnEncodeCommands_returns:
  "CreateVKFramebuffer_attachments (render_target pass) \<noteq> None \<Longrightarrow>
     \<exists>ok s'. OnEncodeCommands env pass s = Some (ok, s')"
proof -
  assume a: "CreateVKFramebuffer_attachments (render_target pass) \<noteq> None"
  let ?s1 = "if debug_label pass \<noteq> [] then record_cmd s (PushDebugGroup (debug_label pass)) else s"
  from encode_pass_returns [OF a, of env ?s1]
  obtain ok s2 where "encode_pass env pass ?s1 = Some (ok, s2)" by blast
  then show ?thesis
    by (auto simp add: OnEncodeCommands_def Let_def split: option.splits)
qed





lemma loop_events_in_range:
  assumes "m \<le> 2 ^ 32"
  shows "loop_events env tgt cmds ds 0 m
           = concat (map (\<lambda>i. encoded env tgt (cmds ! i) (ds ! i)) [0..<m])"
proof -
  have "unat (0 + word_of_nat i :: 32 word) = i" if "i < m" for i
  proof -
    from that assms have "i < 2 ^ 32" by simp
    then show ?thesis by (simp add: unat_of_nat)
  qed
  then have "map (\<lambda>i. encoded env tgt (cmds ! i) (ds ! unat (0 + word_of_nat i :: 32 word))) [0..<m]
      = map (\<lambda>i. encoded env tgt (cmds ! i) (ds ! i)) [0..<m]"
    by (intro map_cong) simp_all
  then show ?thesis by (simp only: loop_events_def)
qed

text \<open>
  C7. When the command at position \<open>k\<close> has an empty vertex buffer view, or its vertex
  buffer or the index buffer it needs resolves to no device buffer, and no attachment
  texture of the target is null, \<^verbatim>\<open>OnEncodeCommands\<close> returns failure. Before the render
  pass begins only barriers and debug markers are recorded; if the pass begins, what is
  recorded between its begin and its end is what encoding the first \<open>m\<close> commands records,
  with \<open>m\<close> at most \<open>k + 1\<close>: no command after the failing one is encoded.
\<close>

theorem unusable_command_fails_encode:
  assumes "k < length (commands pass)"
    and "unusable_buffers env (commands pass ! k)"
    and "CreateVKFramebuffer_attachments (render_target pass) \<noteq> None"
  shows "\<exists>s' pre post. OnEncodeCommands env pass s = Some (False, s')
      \<and> recorded s' = recorded s @ pre @ post
      \<and> (\<forall>c\<in>set pre. is_barrier c \<or> is_marker c)
      \<and> (post = []
          \<or> (\<exists>r f w h ds m.
                m \<le> Suc k
              \<and> post = BeginRenderPass r f w h
                   # loop_events env (GetRenderTargetSize (render_target pass)) (commands pass) ds 0 m
                   @ EndRenderPass # debug_pop (debug_label pass)))"
proof -
  from OnEncodeCommands_returns [OF assms(3), of env s]
  obtain ok s' where e: "OnEncodeCommands env pass s = Some (ok, s')" by blast
  from assms(1,2) have ne: "\<not> encodes env (commands pass ! k)"
    by (simp add: unusable_not_encodes)
  with assms(1) have nall: "\<not> list_all (encodes env) (commands pass)"
    by (auto simp add: list_all_iff)
  from encoded_count_le_unusable [OF assms(1) ne]
  have cnt: "encoded_count env (commands pass) \<le> Suc k" .
  from OnEncodeCommands_shape [OF e]
  obtain mark bars rest post where sh:
    "recorded s' = recorded s @ mark @ bars @ rest @ post"
    "mark = [] \<or> mark = debug_push (debug_label pass)"
    "post = [] \<or> post = debug_pop (debug_label pass)"
    "\<forall>c\<in>set bars. is_barrier c"
    "(\<not> ok \<and> rest = [])
        \<or> (\<exists>r f w h ds more.
              AllocateAndBindDescriptorSets env (commands pass) = Some ds
            \<and> bars = map shader_read_transition (sampled_textures (commands pass)) @ more
            \<and> list_all (has_layout s) (sampled_textures (commands pass))
            \<and> ok = list_all (encodes env) (commands pass)
            \<and> mark = debug_push (debug_label pass) \<and> post = debug_pop (debug_label pass)
            \<and> rest = BeginRenderPass r f w h
                 # loop_events env (GetRenderTargetSize (render_target pass)) (commands pass) ds 0
                     (encoded_count env (commands pass))
                 @ [EndRenderPass])"
    by blast
  have mm: "\<forall>c\<in>set mark. is_marker c"
    using sh(2) by (auto simp add: debug_push_def is_marker_def split: if_splits)
  have pm: "\<forall>c\<in>set post. is_marker c"
    using sh(3) by (auto simp add: debug_pop_def is_marker_def split: if_splits)
  from sh(5) show ?thesis
  proof
    assume a: "\<not> ok \<and> rest = []"
    with sh(1) have "recorded s' = recorded s @ (mark @ bars @ post) @ []" by simp
    moreover from mm pm sh(4) have "\<forall>c\<in>set (mark @ bars @ post). is_barrier c \<or> is_marker c"
      by auto
    moreover from a e have "OnEncodeCommands env pass s = Some (False, s')" by simp
    ultimately show ?thesis by blast
  next
    assume "\<exists>r f w h ds more.
              AllocateAndBindDescriptorSets env (commands pass) = Some ds
            \<and> bars = map shader_read_transition (sampled_textures (commands pass)) @ more
            \<and> list_all (has_layout s) (sampled_textures (commands pass))
            \<and> ok = list_all (encodes env) (commands pass)
            \<and> mark = debug_push (debug_label pass) \<and> post = debug_pop (debug_label pass)
            \<and> rest = BeginRenderPass r f w h
                 # loop_events env (GetRenderTargetSize (render_target pass)) (commands pass) ds 0
                     (encoded_count env (commands pass))
                 @ [EndRenderPass]"
    then obtain r f w h ds where b:
      "ok = list_all (encodes env) (commands pass)"
      "post = debug_pop (debug_label pass)"
      "rest = BeginRenderPass r f w h
                 # loop_events env (GetRenderTargetSize (render_target pass)) (commands pass) ds 0
                     (encoded_count env (commands pass))
                 @ [EndRenderPass]"
      by blast
    from b(1) nall e have "OnEncodeCommands env pass s = Some (False, s')" by simp
    moreover from sh(1) b have "recorded s' = recorded s @ (mark @ bars)
        @ (BeginRenderPass r f w h
             # loop_events env (GetRenderTargetSize (render_target pass)) (commands pass) ds 0
                 (encoded_count env (commands pass))
             @ EndRenderPass # debug_pop (debug_label pass))"
      by simp
    moreover from mm sh(4) have "\<forall>c\<in>set (mark @ bars). is_barrier c \<or> is_marker c" by auto
    ultimately show ?thesis using cnt by blast
  qed
qed

text \<open>
  C8. When \<^verbatim>\<open>OnEncodeCommands\<close> succeeds on at most \<open>2 ^ 32\<close> commands (the descriptor index
  is a 32-bit counter), one descriptor set per command was allocated, and what is recorded
  between the begin and the end of the render pass is the concatenation, in list order, of
  what encoding command \<open>i\<close> with descriptor set \<open>i\<close> records, for every \<open>i\<close>; each of
  these binds exactly descriptor set \<open>i\<close> and issues exactly the draw call of command
  \<open>i\<close>.
\<close>

theorem successful_encode_in_order:
  assumes "OnEncodeCommands env pass s = Some (True, s')"
    and "length (commands pass) \<le> 2 ^ 32"
  shows "\<exists>bars r f w h ds.
        AllocateAndBindDescriptorSets env (commands pass) = Some ds
      \<and> length ds = length (commands pass)
      \<and> recorded s' = recorded s @ debug_push (debug_label pass) @ bars
          @ BeginRenderPass r f w h
          # concat (map (\<lambda>i. encoded env (GetRenderTargetSize (render_target pass))
                              (commands pass ! i) (ds ! i))
                      [0..<length (commands pass)])
          @ EndRenderPass # debug_pop (debug_label pass)
      \<and> (\<forall>c\<in>set bars. is_barrier c)
      \<and> (\<forall>i<length (commands pass).
            filter (\<lambda>c. is_bind_sets c \<or> is_draw c)
              (encoded env (GetRenderTargetSize (render_target pass)) (commands pass ! i) (ds ! i))
            = [BindDescriptorSets (GetPipelineLayout (pipeline (commands pass ! i))) (ds ! i),
               draw_call (commands pass ! i)])"
proof -
  let ?tgt = "GetRenderTargetSize (render_target pass)"
  from OnEncodeCommands_shape [OF assms(1)]
  obtain mark bars rest post r f w h ds where sh:
    "recorded s' = recorded s @ mark @ bars @ rest @ post"
    "\<forall>c\<in>set bars. is_barrier c"
    "AllocateAndBindDescriptorSets env (commands pass) = Some ds"
    "True = list_all (encodes env) (commands pass)"
    "mark = debug_push (debug_label pass)" "post = debug_pop (debug_label pass)"
    "rest = BeginRenderPass r f w h
                 # loop_events env ?tgt (commands pass) ds 0 (encoded_count env (commands pass))
                 @ [EndRenderPass]"
    by blast
  from sh(4) have all: "list_all (encodes env) (commands pass)" by simp
  then have cnt: "encoded_count env (commands pass) = length (commands pass)"
    by (rule encoded_count_all)
  from loop_events_in_range [OF assms(2), of env ?tgt "commands pass" ds] cnt
  have ev: "loop_events env ?tgt (commands pass) ds 0 (encoded_count env (commands pass))
      = concat (map (\<lambda>i. encoded env ?tgt (commands pass ! i) (ds ! i)) [0..<length (commands pass)])"
    by simp
  from sh(1) sh(5) sh(6) sh(7) ev
  have rec: "recorded s' = recorded s @ debug_push (debug_label pass) @ bars
          @ BeginRenderPass r f w h
          # concat (map (\<lambda>i. encoded env ?tgt (commands pass ! i) (ds ! i))
                      [0..<length (commands pass)])
          @ EndRenderPass # debug_pop (debug_label pass)"
    by simp
  have each: "\<forall>i<length (commands pass).
            filter (\<lambda>c. is_bind_sets c \<or> is_draw c)
              (encoded env ?tgt (commands pass ! i) (ds ! i))
            = [BindDescriptorSets (GetPipelineLayout (pipeline (commands pass ! i))) (ds ! i),
               draw_call (commands pass ! i)]"
    using all by (auto simp add: list_all_length encoded_binds_and_draws)
  from AllocateAndBindDescriptorSets_length [OF sh(3)] sh(2) sh(3) rec each
  show ?thesis by blast
qed

lemma ex_encodes: "encodes ex_env ex_command" "encodes ex_env ex_command_indexed"
  "\<not> encodes ex_env ex_command_empty"
  by (simp_all add: encodes_cases ex_env_def ex_command_def ex_command_indexed_def ex_command_empty_def)

lemma ex_sampled: "sampled_textures (commands ex_pass) = [ex_tex_resolve, ex_tex_resolve]"
  by (simp add: sampled_textures_def ex_pass_def ex_command_def ex_command_indexed_def)

lemma ex_ubl: "fst (UpdateBindingLayouts s (commands ex_pass)) = list_all (has_layout s) [ex_tex_resolve, ex_tex_resolve]"
  using commands_closed [of s "commands ex_pass" "fst (UpdateBindingLayouts s (commands ex_pass))"
     "snd (UpdateBindingLayouts s (commands ex_pass))"]
  by (simp add: ex_sampled)

lemma ex_success: "\<exists>s'. OnEncodeCommands ex_env ex_pass ex_state = Some (True, s')"
proof -
  let ?s1 = "record_cmd ex_state (PushDebugGroup ''pass'')"
  obtain ok1 s1 where u: "UpdateBindingLayouts ?s1 (commands ex_pass) = (ok1, s1)"
    by (cases "UpdateBindingLayouts ?s1 (commands ex_pass)")
  have "has_layout ?s1 ex_tex_resolve"
    by (simp add: has_layout_def record_cmd_def ex_state_def ex_tex_resolve_def)
  with ex_ubl [of ?s1] u have ok1: "ok1" by simp
  obtain rp s2 where c: "CreateVKRenderPass ex_env (render_target ex_pass) s1 = (rp, s2)"
    by (cases "CreateVKRenderPass ex_env (render_target ex_pass) s1")
  then obtain render_pass where rp: "rp = Some render_pass"
    by (auto simp add: CreateVKRenderPass_def ex_env_def case_prod_beta)
  have fb: "\<exists>f. CreateVKFramebuffer ex_env (render_target ex_pass) render_pass = Some (Some f)"
    by (simp add: CreateVKFramebuffer_def ex_fb ex_pass_def ex_env_def Let_def)
  then obtain f where f: "CreateVKFramebuffer ex_env (render_target ex_pass) render_pass = Some (Some f)"
    by blast
  have t: "Track ex_env x" for x by (simp add: ex_env_def)
  have a: "AllocateAndBindDescriptorSets ex_env (commands ex_pass) = Some [7, 8]"
    by (simp add: AllocateAndBindDescriptorSets_def ex_env_def ex_pass_def)
  have all: "list_all (encodes ex_env) (commands ex_pass)"
    by (simp add: ex_pass_def ex_encodes)
  from u ok1 c rp f t a all have "\<exists>s'. encode_pass ex_env ex_pass ?s1 = Some (True, s')"
    by (simp add: encode_pass_def Let_def encode_commands_loop_closed)
  then show ?thesis
    by (auto simp add: OnEncodeCommands_def ex_pass_def Let_def)
qed


theorem unusable_command_fails_encode_witness:
  "1 < length (commands ex_pass_empty)
   \<and> unusable_buffers ex_env (commands ex_pass_empty ! 1)
   \<and> CreateVKFramebuffer_attachments (render_target ex_pass_empty) \<noteq> None
   \<and> (\<exists>s' pre post. OnEncodeCommands ex_env ex_pass_empty ex_state = Some (False, s')
      \<and> recorded s' = recorded ex_state @ pre @ post
      \<and> (\<forall>c\<in>set pre. is_barrier c \<or> is_marker c)
      \<and> (post = []
          \<or> (\<exists>r f w h ds m.
                m \<le> Suc 1
              \<and> post = BeginRenderPass r f w h
                   # loop_events ex_env (GetRenderTargetSize (render_target ex_pass_empty))
                       (commands ex_pass_empty) ds 0 m
                   @ EndRenderPass # debug_pop (debug_label ex_pass_empty))))"
proof -
  have a: "1 < length (commands ex_pass_empty)"
    by (simp add: ex_pass_empty_def)
  have b: "unusable_buffers ex_env (commands ex_pass_empty ! 1)"
    by (simp add: ex_pass_empty_def unusable_buffers_def ex_command_empty_def)
  have c: "CreateVKFramebuffer_attachments (render_target ex_pass_empty) \<noteq> None"
    by (simp add: ex_pass_empty_def ex_pass_def ex_fb)
  from unusable_command_fails_encode [OF a b c, of ex_state] a b c
  show ?thesis by simp
qed

theorem successful_encode_in_order_witness:
  "length (commands ex_pass) \<le> 2 ^ 32
   \<and> (\<exists>s'. OnEncodeCommands ex_env ex_pass ex_state = Some (True, s')
       \<and> (\<exists>bars r f w h ds.
            AllocateAndBindDescriptorSets ex_env (commands ex_pass) = Some ds
          \<and> length ds = length (commands ex_pass)
          \<and> recorded s' = recorded ex_state @ debug_push (debug_label ex_pass) @ bars
              @ BeginRenderPass r f w h
              # concat (map (\<lambda>i. encoded ex_env (GetRenderTargetSize (render_target ex_pass))
                                  (commands ex_pass ! i) (ds ! i))
                          [0..<length (commands ex_pass)])
              @ EndRenderPass # debug_pop (debug_label ex_pass)
          \<and> (\<forall>c\<in>set bars. is_barrier c)
          \<and> (\<forall>i<length (commands ex_pass).
                filter (\<lambda>c. is_bind_sets c \<or> is_draw c)
                  (encoded ex_env (GetRenderTargetSize (render_target ex_pass))
                     (commands ex_pass ! i) (ds ! i))
                = [BindDescriptorSets (GetPipelineLayout (pipeline (commands ex_pass ! i))) (ds ! i),
                   draw_call (commands ex_pass ! i)])))"
proof -
  have l: "length (commands ex_pass) \<le> 2 ^ 32"
    by (simp add: ex_pass_def)
  from ex_success obtain s' where s: "OnEncodeCommands ex_env ex_pass ex_state = Some (True, s')"
    by blast
  from successful_encode_in_order [OF s l] s l
  show ?thesis by blast
qed

end
